theory Spec2Isabelle
  imports Complex_Main "HOL-Library.Sublist" "HOL-Library.DAList" "HOL-Library.Multiset"
begin

section \<open>Values exchanged with the backend\<close>

text \<open>
  The frontend talks to the backend at \<^verbatim>\<open>http://localhost:8000\<close> through \<^verbatim>\<open>fetch\<close>.
  A request body is the JSON value handed to \<^verbatim>\<open>JSON.stringify\<close> (an object is the list of
  its fields, in the order of the object literal), or the \<^verbatim>\<open>FormData\<close> of an upload.
  Identifiers are TypeScript \<^verbatim>\<open>number\<close>s that hold database ids; they are integers here.
\<close>

datatype json =
    JNull
  | JBool bool
  | JNum int
  | JStr string
  | JArr "json list"
  | JObj "(string \<times> json) list"

datatype http_method = GET | POST | PUT | DELETE

datatype req_body = NoBody | JsonBody json | FormFile string

text \<open>\<open>req_signal\<close> is the \<^verbatim>\<open>signal\<close> option of \<^verbatim>\<open>fetch\<close>: the abort controller, if any.\<close>

record request =
  req_method :: http_method
  req_url :: string
  req_headers :: "(string \<times> string) list"
  req_body :: req_body
  req_signal :: "nat option"

text \<open>
  Responses. The serialised execution run (\<^verbatim>\<open>results\<close> in Strategies.tsx) has one row per
  symbol; the per-strategy map of a row holds an outcome or the explicit no-data marker
  (\<^verbatim>\<open>null\<close>). Fields that the code reads with a fallback (\<^verbatim>\<open>||\<close>, \<^verbatim>\<open>?.\<close>) may be absent.
  \<^verbatim>\<open>total_stocks\<close> and \<^verbatim>\<open>strategy_count\<close> are counts; \<^verbatim>\<open>total_matches\<close> is the number
  received, if the row has one; a score and a confidence are the rational value of the
  number received.
\<close>

record outcome =
  matched :: bool
  score :: rat
  confidence :: "rat option"
  reason :: "string option"

datatype entry = NoDataMarker | Outcome outcome

record row =
  symbol :: string
  total_matches :: "int option"
  strategies :: "(string \<rightharpoonup> entry) option"

record exec_results =
  strategy_count :: "nat option"
  total_stocks :: "nat option"
  results :: "row list option"

record stock =
  stock_id :: int
  stock_symbol :: string

record reply =
  detail :: "string option"
  message :: "string option"

text \<open>
  What \<^verbatim>\<open>response.json()\<close> yields: \<^verbatim>\<open>null\<close>, the array of stocks, an execution run, or
  another object, of which the code reads \<^verbatim>\<open>detail\<close> and \<^verbatim>\<open>message\<close>. A body that is not
  JSON (the empty body of a 204 reply, for one) makes \<^verbatim>\<open>json()\<close> reject: \<open>resp_json = None\<close>.
\<close>

datatype body = BNull | BStocks "stock list" | BResults exec_results | BObject reply

record response =
  resp_ok :: bool
  resp_json :: "body option"

datatype js_error = Error string | SyntaxError | TypeError | NetworkError

type_synonym 'w fetch = "'w \<Rightarrow> request \<Rightarrow> (js_error + response) \<times> 'w"

text \<open>
  The server and the network are a parameter: \<open>fetch w rq\<close> answers request \<open>rq\<close> in world
  \<open>w\<close> with a response, or rejects, and gives the next world. Every function below returns
  what it returns (or throws, \<open>Inl\<close>), the events it caused, in order, and the world it leaves.
  The events are the requests, the reading of a response body, the messages shown to the
  user, the state setters and the callbacks; what the code writes to the console, and the
  half second it waits after adding stocks, are left out.
\<close>

datatype level = MsgSuccess | MsgInfo | MsgWarning | MsgError

text \<open>
  The text of a message: a string, the engine's own text of a runtime error, or
  \<^verbatim>\<open>undefined\<close>.
\<close>

datatype shown = Text string | EngineText js_error | NoText

datatype event =
    Fetch request
  | ReadJson
  | AntMsg level shown
  | PageMsg level shown
  | SetLoading bool
  | SetError "shown option"
  | SetResults "body option"
  | SetSelectedStocks "string list"
  | SetExecuteModal bool
  | SetUploadModal bool
  | SetCreateWatchlistModal bool
  | SetUploading bool
  | ResetExecuteForm
  | ResetWatchlistForm
  | OnRefresh
  | ScheduleReload

section \<open>Printing numbers\<close>

definition digit_char :: "nat \<Rightarrow> char" where
  "digit_char n = ''0123456789'' ! (n mod 10)"

function string_of_nat :: "nat \<Rightarrow> string" where
  "string_of_nat n =
     (if n < 10 then [digit_char n] else string_of_nat (n div 10) @ [digit_char n])"
  by pat_completeness auto
termination
  by (relation "measure id") auto

declare string_of_nat.simps [simp del]

definition string_of_int :: "int \<Rightarrow> string" where
  "string_of_int i = (if i < 0 then CHR ''-'' # string_of_nat (nat (- i)) else string_of_nat (nat i))"

section \<open>app/lib/api.ts and lib/api.ts\<close>

definition API_BASE_URL :: string where
  "API_BASE_URL = ''http://localhost:8000''"

definition json_headers :: "(string \<times> string) list" where
  "json_headers = [(''Content-Type'', ''application/json'')]"

definition delete_request :: "string \<Rightarrow> request" where
  "delete_request u =
     \<lparr>req_method = DELETE, req_url = u, req_headers = [], req_body = NoBody, req_signal = None\<rparr>"

text \<open>
  The three deleting calls of app/lib/api.ts have one shape: fetch, throw when the response
  is not ok, return nothing. \<^verbatim>\<open>response.json()\<close> is not called.
\<close>

definition delete_call :: "'w fetch \<Rightarrow> 'w \<Rightarrow> string \<Rightarrow> string \<Rightarrow> (js_error + unit) \<times> event list \<times> 'w" where
  "delete_call fetch w u failure =
     (case fetch w (delete_request u) of
        (Inl e, w') \<Rightarrow> (Inl e, [Fetch (delete_request u)], w')
      | (Inr response, w') \<Rightarrow>
          if \<not> resp_ok response then (Inl (Error failure), [Fetch (delete_request u)], w')
          else (Inr (), [Fetch (delete_request u)], w'))"

definition deleteStock :: "'w fetch \<Rightarrow> 'w \<Rightarrow> int \<Rightarrow> (js_error + unit) \<times> event list \<times> 'w" where
  "deleteStock fetch w i =
     delete_call fetch w (API_BASE_URL @ ''/api/stocks/'' @ string_of_int i)
       ''Failed to delete stock''"

definition deleteWatchlist :: "'w fetch \<Rightarrow> 'w \<Rightarrow> int \<Rightarrow> (js_error + unit) \<times> event list \<times> 'w" where
  "deleteWatchlist fetch w i =
     delete_call fetch w (API_BASE_URL @ ''/api/watchlists/'' @ string_of_int i)
       ''Failed to delete watchlist''"

definition removeStockFromWatchlist ::
  "'w fetch \<Rightarrow> 'w \<Rightarrow> int \<Rightarrow> int \<Rightarrow> (js_error + unit) \<times> event list \<times> 'w" where
  "removeStockFromWatchlist fetch w watchlistId stockId =
     delete_call fetch w
       (API_BASE_URL @ ''/api/watchlists/'' @ string_of_int watchlistId @ ''/stocks/''
          @ string_of_int stockId)
       ''Failed to remove stock from watchlist''"

text \<open>\<^verbatim>\<open>executeMultipleStrategies\<close>; the two copies of the api module are given apart.\<close>

definition execute_request :: "int \<Rightarrow> int list \<Rightarrow> request" where
  "execute_request watchlistId strategyIds =
     \<lparr>req_method = POST,
      req_url = API_BASE_URL @ ''/api/strategies/execute-multiple'',
      req_headers = json_headers,
      req_body = JsonBody (JObj
        [(''watchlist_id'', JNum watchlistId),
         (''strategy_ids'', JArr (map JNum strategyIds)),
         (''save_results'', JBool True)]),
      req_signal = None\<rparr>"

definition read_json :: "response \<Rightarrow> js_error + body" where
  "read_json response = (case resp_json response of None \<Rightarrow> Inl SyntaxError | Some b \<Rightarrow> Inr b)"

definition app_lib_executeMultipleStrategies ::
  "'w fetch \<Rightarrow> 'w \<Rightarrow> int \<Rightarrow> int list \<Rightarrow> (js_error + body) \<times> event list \<times> 'w" where
  "app_lib_executeMultipleStrategies fetch w watchlistId strategyIds =
     (case fetch w (execute_request watchlistId strategyIds) of
        (Inl e, w') \<Rightarrow> (Inl e, [Fetch (execute_request watchlistId strategyIds)], w')
      | (Inr response, w') \<Rightarrow>
          (read_json response, [Fetch (execute_request watchlistId strategyIds), ReadJson], w'))"

definition lib_executeMultipleStrategies ::
  "'w fetch \<Rightarrow> 'w \<Rightarrow> int \<Rightarrow> int list \<Rightarrow> (js_error + body) \<times> event list \<times> 'w" where
  "lib_executeMultipleStrategies fetch w watchlistId strategyIds =
     (case fetch w (execute_request watchlistId strategyIds) of
        (Inl e, w') \<Rightarrow> (Inl e, [Fetch (execute_request watchlistId strategyIds)], w')
      | (Inr response, w') \<Rightarrow>
          (read_json response, [Fetch (execute_request watchlistId strategyIds), ReadJson], w'))"

definition events :: "'a \<times> event list \<times> 'w \<Rightarrow> event list" where
  "events r = fst (snd r)"

definition requests :: "event list \<Rightarrow> request list" where
  "requests t = concat (map (\<lambda>e. case e of Fetch rq \<Rightarrow> [rq] | _ \<Rightarrow> []) t)"

definition json_fields :: "req_body \<Rightarrow> string list" where
  "json_fields b = (case b of JsonBody (JObj fs) \<Rightarrow> map fst fs | _ \<Rightarrow> [])"

definition json_field :: "req_body \<Rightarrow> string \<Rightarrow> json option" where
  "json_field b k = (case b of JsonBody (JObj fs) \<Rightarrow> map_of fs k | _ \<Rightarrow> None)"

section \<open>app/page.tsx\<close>

definition message_or :: "js_error \<Rightarrow> string \<Rightarrow> shown" where
  \<comment> \<open>\<^verbatim>\<open>error.message || fallback\<close>\<close>
  "message_or e fallback =
     (case e of Error m \<Rightarrow> Text (if m = [] then fallback else m) | _ \<Rightarrow> EngineText e)"

definition or_default :: "string option \<Rightarrow> string \<Rightarrow> string" where
  \<comment> \<open>\<^verbatim>\<open>x || fallback\<close> on a string that may be undefined\<close>
  "or_default x fallback = (case x of None \<Rightarrow> fallback | Some s \<Rightarrow> if s = [] then fallback else s)"

definition has_matches :: "row \<Rightarrow> bool" where
  \<comment> \<open>\<^verbatim>\<open>r.total_matches > 0\<close>, which is false on a row without \<^verbatim>\<open>total_matches\<close>\<close>
  "has_matches r = (case total_matches r of None \<Rightarrow> False | Some n \<Rightarrow> n > 0)"

definition stocks_with_matches :: "row list \<Rightarrow> nat" where
  "stocks_with_matches rows = length (filter has_matches rows)"

definition executed_text :: "body \<Rightarrow> js_error + string" where
  \<comment> \<open>the text of the success message; \<^verbatim>\<open>result.results\<close> on \<^verbatim>\<open>null\<close> is a TypeError\<close>
  "executed_text result =
     (let text = (\<lambda>count found. ''Executed '' @ count @ '' strategies! Found ''
            @ string_of_nat found @ '' stocks with matches'')
      in case result of
        BNull \<Rightarrow> Inl TypeError
      | BResults r \<Rightarrow> Inr (text
          (case strategy_count r of None \<Rightarrow> ''undefined'' | Some n \<Rightarrow> string_of_nat n)
          (case results r of None \<Rightarrow> 0 | Some rows \<Rightarrow> stocks_with_matches rows))
      | _ \<Rightarrow> Inr (text ''undefined'' 0))"

definition handleExecuteStrategies ::
  "'w fetch \<Rightarrow> 'w \<Rightarrow> int \<Rightarrow> int list \<Rightarrow> (js_error + body) \<times> event list \<times> 'w" where
  "handleExecuteStrategies fetch w watchlistId strategyIds =
     (case app_lib_executeMultipleStrategies fetch w watchlistId strategyIds of
        (Inl e, t, w') \<Rightarrow>
          (Inl e, t @ [PageMsg MsgError (Text ''Failed to execute strategies'')], w')
      | (Inr result, t, w') \<Rightarrow>
          (case executed_text result of
             Inl e \<Rightarrow> (Inl e, t @ [PageMsg MsgError (Text ''Failed to execute strategies'')], w')
           | Inr text \<Rightarrow> (Inr result, t @ [PageMsg MsgSuccess (Text text)], w')))"

section \<open>app/components/Strategies.tsx\<close>

text \<open>
  The \<^verbatim>\<open>onRefresh\<close> prop of the component is a parameter of the handlers that use it: it
  says whether the prop is a function. Calling a prop that was not passed is a TypeError.
  app/page.tsx renders the component with \<^verbatim>\<open>strategies\<close>, \<^verbatim>\<open>watchlists\<close> and
  \<^verbatim>\<open>onExecuteStrategies\<close> only.
\<close>

definition page_onRefresh :: bool where
  "page_onRefresh = False"

subsection \<open>handleExecute\<close>

record execute_values =
  watchlist_id :: int
  strategy_ids :: "int list"

definition handleExecute :: "'w fetch \<Rightarrow> 'w \<Rightarrow> execute_values \<Rightarrow> event list \<times> 'w" where
  "handleExecute fetch w values =
     (case handleExecuteStrategies fetch w (watchlist_id values) (strategy_ids values) of
        (Inr result, t, w') \<Rightarrow>
          ([SetLoading True, SetError None, SetResults None, SetSelectedStocks []] @ t
             @ [SetResults (Some result), SetExecuteModal False, ResetExecuteForm,
                SetLoading False], w')
      | (Inl err, t, w') \<Rightarrow>
          ([SetLoading True, SetError None, SetResults None, SetSelectedStocks []] @ t
             @ [SetError (Some (message_or err ''Failed to execute strategies'')),
                SetLoading False], w'))"

subsection \<open>handleUpload\<close>

definition upload_request :: "string \<Rightarrow> request" where
  "upload_request file =
     \<lparr>req_method = POST, req_url = ''http://localhost:8000/api/strategies/upload'',
      req_headers = [], req_body = FormFile file, req_signal = None\<rparr>"

definition body_detail :: "body \<Rightarrow> js_error + string option" where
  \<comment> \<open>\<^verbatim>\<open>error.detail\<close>\<close>
  "body_detail b =
     (case b of BNull \<Rightarrow> Inl TypeError | BObject r \<Rightarrow> Inr (detail r) | _ \<Rightarrow> Inr None)"

definition body_message :: "body \<Rightarrow> js_error + string option" where
  \<comment> \<open>\<^verbatim>\<open>result.message\<close>\<close>
  "body_message b =
     (case b of BNull \<Rightarrow> Inl TypeError | BObject r \<Rightarrow> Inr (message r) | _ \<Rightarrow> Inr None)"

text \<open>The \<^verbatim>\<open>try\<close> block of \<^verbatim>\<open>handleUpload\<close>: what it throws, if anything, and its events.\<close>

definition handleUpload_try ::
  "bool \<Rightarrow> 'w fetch \<Rightarrow> 'w \<Rightarrow> string \<Rightarrow> js_error option \<times> event list \<times> 'w" where
  "handleUpload_try onRefresh fetch w file =
     (case fetch w (upload_request file) of
        (Inl e, w') \<Rightarrow> (Some e, [Fetch (upload_request file)], w')
      | (Inr response, w') \<Rightarrow>
          if \<not> resp_ok response then
            (case read_json response of
               Inl e \<Rightarrow> (Some e, [Fetch (upload_request file), ReadJson], w')
             | Inr error \<Rightarrow>
                 (case body_detail error of
                    Inl e \<Rightarrow> (Some e, [Fetch (upload_request file), ReadJson], w')
                  | Inr d \<Rightarrow>
                      (Some (Error (or_default d ''Upload failed'')),
                       [Fetch (upload_request file), ReadJson], w')))
          else
            (case read_json response of
               Inl e \<Rightarrow> (Some e, [Fetch (upload_request file), ReadJson], w')
             | Inr result \<Rightarrow>
                 (case body_message result of
                    Inl e \<Rightarrow> (Some e, [Fetch (upload_request file), ReadJson], w')
                  | Inr m \<Rightarrow>
                      if onRefresh then
                        (None,
                         [Fetch (upload_request file), ReadJson,
                          AntMsg MsgSuccess (case m of None \<Rightarrow> NoText | Some s \<Rightarrow> Text s),
                          SetUploadModal False, OnRefresh], w')
                      else
                        (Some TypeError,
                         [Fetch (upload_request file), ReadJson,
                          AntMsg MsgSuccess (case m of None \<Rightarrow> NoText | Some s \<Rightarrow> Text s),
                          SetUploadModal False], w'))))"

definition handleUpload ::
  "bool \<Rightarrow> 'w fetch \<Rightarrow> 'w \<Rightarrow> string \<Rightarrow> bool \<times> event list \<times> 'w" where
  "handleUpload onRefresh fetch w file =
     (case handleUpload_try onRefresh fetch w file of
        (None, t, w') \<Rightarrow> (False, [SetUploading True] @ t @ [SetUploading False], w')
      | (Some error, t, w') \<Rightarrow>
          (False,
           [SetUploading True] @ t
             @ [AntMsg MsgError (message_or error ''Failed to upload strategy''),
                SetUploading False], w'))"

subsection \<open>ensureStocksExist\<close>

definition get_stocks_request :: request where
  "get_stocks_request =
     \<lparr>req_method = GET, req_url = ''http://localhost:8000/api/stocks/'',
      req_headers = [], req_body = NoBody, req_signal = None\<rparr>"

fun remove_first :: "string \<Rightarrow> string \<Rightarrow> string" where
  \<comment> \<open>\<^verbatim>\<open>s.replace(p, '')\<close>: the first occurrence of \<open>p\<close> is cut out\<close>
  "remove_first p [] = []"
| "remove_first p (c # cs) =
     (if prefix p (c # cs) then drop (length p) (c # cs) else c # remove_first p cs)"

definition add_stock_request :: "string \<Rightarrow> request" where
  "add_stock_request s =
     \<lparr>req_method = POST, req_url = ''http://localhost:8000/api/stocks/'',
      req_headers = json_headers,
      req_body = JsonBody (JObj
        [(''symbol'', JStr s),
         (''name'', JStr (remove_first ''.BO'' (remove_first ''.NS'' s))),
         (''exchange'', JStr (if suffix ''.NS'' s then ''NSE'' else ''BSE'')),
         (''sector'', JStr ''Unknown''),
         (''is_active'', JBool True)]),
      req_signal = None\<rparr>"

definition has_symbol :: "stock list \<Rightarrow> string \<Rightarrow> bool" where
  \<comment> \<open>\<^verbatim>\<open>allStocks.some((s: any) => s.symbol === symbol)\<close>\<close>
  "has_symbol allStocks s = list_ex (\<lambda>st. stock_symbol st = s) allStocks"

definition missing_stocks :: "body \<Rightarrow> string list \<Rightarrow> js_error + string list" where
  \<comment> \<open>\<^verbatim>\<open>symbols.filter(...)\<close>; on a body that is no array, the first call of
      \<^verbatim>\<open>allStocks.some\<close> is a TypeError\<close>
  "missing_stocks allStocks symbols =
     (case allStocks of
        BStocks stocks \<Rightarrow> Inr (filter (\<lambda>s. \<not> has_symbol stocks s) symbols)
      | _ \<Rightarrow> if symbols = [] then Inr [] else Inl TypeError)"

text \<open>
  The loop over the missing symbols. Whatever a POST answers, and when it rejects, the loop
  goes on: the code only logs the outcome.
\<close>

fun add_missing :: "'w fetch \<Rightarrow> 'w \<Rightarrow> string list \<Rightarrow> event list \<times> 'w" where
  "add_missing fetch w [] = ([], w)"
| "add_missing fetch w (s # ss) =
     (case fetch w (add_stock_request s) of
        (addResponse, w1) \<Rightarrow>
          (case add_missing fetch w1 ss of
             (t, w2) \<Rightarrow> (Fetch (add_stock_request s) # t, w2)))"

definition added_text :: "nat \<Rightarrow> string" where
  "added_text n = ''Added '' @ string_of_nat n @ '' new stocks to database''"

definition ensureStocksExist :: "'w fetch \<Rightarrow> 'w \<Rightarrow> string list \<Rightarrow> bool \<times> event list \<times> 'w" where
  "ensureStocksExist fetch w symbols =
     (case fetch w get_stocks_request of
        (Inl e, w1) \<Rightarrow> (False, [Fetch get_stocks_request], w1)
      | (Inr stocksResponse, w1) \<Rightarrow>
          if \<not> resp_ok stocksResponse then (False, [Fetch get_stocks_request], w1)
          else
            (case read_json stocksResponse of
               Inl e \<Rightarrow> (False, [Fetch get_stocks_request, ReadJson], w1)
             | Inr allStocks \<Rightarrow>
                 (case missing_stocks allStocks symbols of
                    Inl e \<Rightarrow> (False, [Fetch get_stocks_request, ReadJson], w1)
                  | Inr missingStocks \<Rightarrow>
                      if missingStocks \<noteq> [] then
                        (case add_missing fetch w1 missingStocks of
                           (t, w2) \<Rightarrow>
                             (True,
                              [Fetch get_stocks_request, ReadJson] @ t
                                @ [AntMsg MsgSuccess (Text (added_text (length missingStocks)))],
                              w2))
                      else (True, [Fetch get_stocks_request, ReadJson], w1))))"

subsection \<open>handleSubmitWatchlist\<close>

record watchlist_values =
  name :: string
  description :: "string option"

fun join :: "string \<Rightarrow> string list \<Rightarrow> string" where
  "join sep [] = []"
| "join sep [x] = x"
| "join sep (x # y # ys) = x @ sep @ join sep (y # ys)"

definition not_added_text :: "string list \<Rightarrow> string" where
  "not_added_text notFoundStocks =
     string_of_nat (length notFoundStocks) @ '' stocks could not be added: ''
       @ join '', '' notFoundStocks"

definition created_text :: "string \<Rightarrow> nat \<Rightarrow> string" where
  "created_text n k =
     ''Watchlist '' @ [CHR 0x22] @ n @ [CHR 0x22] @ '' created with '' @ string_of_nat k
       @ '' stocks!''"

definition create_watchlist_request :: "watchlist_values \<Rightarrow> int list \<Rightarrow> request" where
  "create_watchlist_request values stockIds =
     \<lparr>req_method = POST, req_url = ''http://localhost:8000/api/watchlists/'',
      req_headers = json_headers,
      req_body = JsonBody (JObj
        [(''name'', JStr (name values)),
         (''description'', JStr (or_default (description values) [])),
         (''stock_ids'', JArr (map JNum stockIds))]),
      req_signal = None\<rparr>"

text \<open>
  The loop that maps the selected symbols to stock ids: the ids found, in order, and the
  symbols for which \<^verbatim>\<open>allStocks.find\<close> found no stock.
\<close>

fun map_symbols :: "stock list \<Rightarrow> string list \<Rightarrow> int list \<times> string list" where
  "map_symbols allStocks [] = ([], [])"
| "map_symbols allStocks (s # ss) =
     (case map_symbols allStocks ss of
        (stockIds, notFoundStocks) \<Rightarrow>
          (case find (\<lambda>st. stock_symbol st = s) allStocks of
             Some st \<Rightarrow> (stock_id st # stockIds, notFoundStocks)
           | None \<Rightarrow> (stockIds, s # notFoundStocks)))"

definition resolve_symbols :: "body \<Rightarrow> string list \<Rightarrow> js_error + int list \<times> string list" where
  \<comment> \<open>\<^verbatim>\<open>allStocks.length\<close> on \<^verbatim>\<open>null\<close>, and \<^verbatim>\<open>allStocks.find\<close> on an object that is no
      array, are TypeErrors\<close>
  "resolve_symbols allStocks selectedStocks =
     (case allStocks of
        BStocks stocks \<Rightarrow> Inr (map_symbols stocks selectedStocks)
      | BNull \<Rightarrow> Inl TypeError
      | _ \<Rightarrow> if selectedStocks = [] then Inr ([], []) else Inl TypeError)"

text \<open>
  The fourth step of the \<^verbatim>\<open>try\<close> block: the creation request and what follows it. Here
  \<^verbatim>\<open>onRefresh\<close> is called only when it is a function.
\<close>

definition create_watchlist ::
  "bool \<Rightarrow> 'w fetch \<Rightarrow> 'w \<Rightarrow> watchlist_values \<Rightarrow> int list
     \<Rightarrow> js_error option \<times> event list \<times> 'w" where
  "create_watchlist onRefresh fetch w values stockIds =
     (case fetch w (create_watchlist_request values stockIds) of
        (Inl e, w') \<Rightarrow> (Some e, [Fetch (create_watchlist_request values stockIds)], w')
      | (Inr createResponse, w') \<Rightarrow>
          if \<not> resp_ok createResponse then
            (case read_json createResponse of
               Inl e \<Rightarrow> (Some e, [Fetch (create_watchlist_request values stockIds), ReadJson], w')
             | Inr errorData \<Rightarrow>
                 (case body_detail errorData of
                    Inl e \<Rightarrow>
                      (Some e, [Fetch (create_watchlist_request values stockIds), ReadJson], w')
                  | Inr d \<Rightarrow>
                      (Some (Error (or_default d ''Failed to create watchlist'')),
                       [Fetch (create_watchlist_request values stockIds), ReadJson], w')))
          else
            (case read_json createResponse of
               Inl e \<Rightarrow> (Some e, [Fetch (create_watchlist_request values stockIds), ReadJson], w')
             | Inr newWatchlist \<Rightarrow>
                 (None,
                  [Fetch (create_watchlist_request values stockIds), ReadJson,
                   AntMsg MsgSuccess (Text (created_text (name values) (length stockIds))),
                   SetCreateWatchlistModal False, ResetWatchlistForm, SetSelectedStocks []]
                    @ (if onRefresh then [OnRefresh] else []) @ [ScheduleReload], w')))"

text \<open>
  The second to fourth step: fetch all stocks, map the symbols, warn, create. When no id
  was found the block returns early, after setting \<^verbatim>\<open>loading\<close> itself.
\<close>

definition submit_steps ::
  "bool \<Rightarrow> 'w fetch \<Rightarrow> 'w \<Rightarrow> string list \<Rightarrow> watchlist_values
     \<Rightarrow> js_error option \<times> event list \<times> 'w" where
  "submit_steps onRefresh fetch w selectedStocks values =
     (case fetch w get_stocks_request of
        (Inl e, w1) \<Rightarrow> (Some e, [Fetch get_stocks_request], w1)
      | (Inr stocksResponse, w1) \<Rightarrow>
          if \<not> resp_ok stocksResponse then
            (Some (Error ''Failed to fetch stocks''), [Fetch get_stocks_request], w1)
          else
            (case read_json stocksResponse of
               Inl e \<Rightarrow> (Some e, [Fetch get_stocks_request, ReadJson], w1)
             | Inr allStocks \<Rightarrow>
                 (case resolve_symbols allStocks selectedStocks of
                    Inl e \<Rightarrow> (Some e, [Fetch get_stocks_request, ReadJson], w1)
                  | Inr (stockIds, notFoundStocks) \<Rightarrow>
                      (let warning =
                             (if notFoundStocks \<noteq> []
                              then [AntMsg MsgWarning (Text (not_added_text notFoundStocks))]
                              else [])
                       in if stockIds = [] then
                            (None,
                             [Fetch get_stocks_request, ReadJson] @ warning
                               @ [AntMsg MsgError (Text ''No valid stocks found. Please try again.''),
                                  SetLoading False], w1)
                          else
                            (case create_watchlist onRefresh fetch w1 values stockIds of
                               (r, t, w2) \<Rightarrow>
                                 (r, [Fetch get_stocks_request, ReadJson] @ warning @ t, w2))))))"

definition handleSubmitWatchlist ::
  "bool \<Rightarrow> 'w fetch \<Rightarrow> 'w \<Rightarrow> string list \<Rightarrow> watchlist_values \<Rightarrow> event list \<times> 'w" where
  "handleSubmitWatchlist onRefresh fetch w selectedStocks values =
     (case ensureStocksExist fetch w selectedStocks of
        (ensured, t1, w1) \<Rightarrow>
          (case submit_steps onRefresh fetch w1 selectedStocks values of
             (None, t2, w2) \<Rightarrow> ([SetLoading True] @ t1 @ t2 @ [SetLoading False], w2)
           | (Some error, t2, w2) \<Rightarrow>
               ([SetLoading True] @ t1 @ t2
                  @ [AntMsg MsgError (message_or error ''Failed to create watchlist''),
                     SetLoading False], w2)))"

subsection \<open>getSummary\<close>

record summary =
  totalStocks :: nat
  stocksWithMatches :: nat
  matchRate :: string

text \<open>
  \<open>percent a b\<close> stands for \<^verbatim>\<open>((a / b) * 100).toFixed(1)\<close>, the double arithmetic of the
  engine and its printing; it is a parameter.
\<close>

definition getSummary :: "(nat \<Rightarrow> nat \<Rightarrow> string) \<Rightarrow> exec_results option \<Rightarrow> summary option" where
  "getSummary percent res =
     (case res of
        None \<Rightarrow> None
      | Some r \<Rightarrow>
          (let total = (case total_stocks r of None \<Rightarrow> 0 | Some n \<Rightarrow> n);
               matches = (case results r of None \<Rightarrow> 0 | Some rows \<Rightarrow> stocks_with_matches rows);
               rate = (if total > 0 then percent matches total else ''0.0'')
           in Some \<lparr>totalStocks = total, stocksWithMatches = matches, matchRate = rate\<rparr>))"

subsection \<open>The strategy columns of the detailed results table\<close>

text \<open>
  What a cell holds. The confidence part is \<^verbatim>\<open>{strategyResult.confidence && (...)}\<close>:
  nothing when the confidence is absent, the element with \<^verbatim>\<open>confidence.toFixed(1)\<close> when
  it is a number other than zero, and the number \<^verbatim>\<open>0\<close> itself when it is zero, which React
  renders as the text "0". The reason part is the first 80 characters and whether the
  ellipsis follows.
\<close>

datatype confidence_part = ConfidenceNothing | ConfidenceZero | ConfidenceFixed1 rat

datatype cell =
    NoData
  | Match rat confidence_part "(string \<times> bool) option"
  | NoMatch

definition strategy_result :: "row \<Rightarrow> string \<Rightarrow> entry option" where
  \<comment> \<open>\<^verbatim>\<open>record.strategies?.[strategyId]\<close>\<close>
  "strategy_result record strategyId =
     (case strategies record of None \<Rightarrow> None | Some m \<Rightarrow> m strategyId)"

definition strategy_cell :: "string \<Rightarrow> row \<Rightarrow> cell" where
  "strategy_cell strategyId record =
     (case strategy_result record strategyId of
        None \<Rightarrow> NoData
      | Some NoDataMarker \<Rightarrow> NoData
      | Some (Outcome strategyResult) \<Rightarrow>
          if matched strategyResult then
            Match (score strategyResult)
              (case confidence strategyResult of
                 None \<Rightarrow> ConfidenceNothing
               | Some c \<Rightarrow> if c = 0 then ConfidenceZero else ConfidenceFixed1 c)
              (case reason strategyResult of
                 None \<Rightarrow> None
               | Some s \<Rightarrow> if s = [] then None else Some (take 80 s, length s > 80))
          else NoMatch)"

section \<open>Servers to run the code against\<close>

text \<open>The server that answers every request with the same response.\<close>

definition always :: "response \<Rightarrow> unit fetch" where
  "always response w rq = (Inr response, w)"

text \<open>The stock list that a run obtains from GET /api/stocks/ in world \<open>w\<close>, if it does.\<close>

definition fetched_stocks :: "'w fetch \<Rightarrow> 'w \<Rightarrow> stock list option" where
  "fetched_stocks fetch w =
     (case fst (fetch w get_stocks_request) of
        Inl e \<Rightarrow> None
      | Inr response \<Rightarrow>
          if resp_ok response
          then (case resp_json response of Some (BStocks stocks) \<Rightarrow> Some stocks | _ \<Rightarrow> None)
          else None)"

definition next_id :: "stock list \<Rightarrow> int" where
  "next_id db = fold max (map stock_id db) 0 + 1"

text \<open>
  Modelled from the spec: the Catalog Store behind \<^verbatim>\<open>/api/stocks/\<close> and
  \<^verbatim>\<open>/api/watchlists/\<close> (the backend is not part of the sources). It owns the stocks: GET
  lists them, POST adds a stock under a new id unless its symbol is known already, and a
  watchlist is accepted as it comes. The world is the list of stocks.
\<close>

definition catalog :: "stock list fetch" where
  "catalog db rq =
     (if req_url rq = ''http://localhost:8000/api/stocks/'' \<and> req_method rq = GET then
        (Inr \<lparr>resp_ok = True, resp_json = Some (BStocks db)\<rparr>, db)
      else if req_url rq = ''http://localhost:8000/api/stocks/'' \<and> req_method rq = POST then
        (case json_field (req_body rq) ''symbol'' of
           Some (JStr s) \<Rightarrow>
             if has_symbol db s then
               (Inr \<lparr>resp_ok = False,
                     resp_json = Some (BObject \<lparr>detail = Some ''Stock already exists'',
                                                 message = None\<rparr>)\<rparr>, db)
             else
               (Inr \<lparr>resp_ok = True,
                     resp_json = Some (BObject \<lparr>detail = None, message = None\<rparr>)\<rparr>,
                db @ [\<lparr>stock_id = next_id db, stock_symbol = s\<rparr>])
         | _ \<Rightarrow>
             (Inr \<lparr>resp_ok = False,
                   resp_json = Some (BObject \<lparr>detail = Some ''Invalid stock'',
                                               message = None\<rparr>)\<rparr>, db))
      else if req_url rq = ''http://localhost:8000/api/watchlists/'' \<and> req_method rq = POST then
        (Inr \<lparr>resp_ok = True,
              resp_json = Some (BObject \<lparr>detail = None, message = None\<rparr>)\<rparr>, db)
      else
        (Inr \<lparr>resp_ok = False,
              resp_json = Some (BObject \<lparr>detail = Some ''Not Found'', message = None\<rparr>)\<rparr>, db))"

subsection \<open>Reading a trace\<close>

definition is_create_watchlist :: "request \<Rightarrow> bool" where
  "is_create_watchlist rq \<longleftrightarrow>
     req_method rq = POST \<and> req_url rq = ''http://localhost:8000/api/watchlists/''"

definition stock_ids_of :: "request \<Rightarrow> json list" where
  "stock_ids_of rq = (case json_field (req_body rq) ''stock_ids'' of Some (JArr xs) \<Rightarrow> xs | _ \<Rightarrow> [])"

text \<open>A warning was shown whose text contains the symbol.\<close>

definition warned :: "event list \<Rightarrow> string \<Rightarrow> bool" where
  "warned t s =
     list_ex (\<lambda>e. case e of AntMsg MsgWarning (Text c) \<Rightarrow> sublist s c | _ \<Rightarrow> False) t"

section \<open>The Strategies component as a transition system\<close>

text \<open>
  The state of the component that the selection depends on: the \<^verbatim>\<open>useState\<close> values
  \<^verbatim>\<open>results\<close>, \<^verbatim>\<open>selectedStocks\<close>, \<^verbatim>\<open>loading\<close> and \<^verbatim>\<open>createWatchlistModal\<close>, and which
  asynchronous handler is waiting for the server, if any.
\<close>

datatype pending = Idle | Executing | Submitting

record component =
  c_results :: "body option"
  c_selectedStocks :: "string list"
  c_loading :: bool
  c_createWatchlistModal :: bool
  c_pending :: pending

definition initial :: component where
  "initial = \<lparr>c_results = None, c_selectedStocks = [], c_loading = False,
              c_createWatchlistModal = False, c_pending = Idle\<rparr>"

definition truthy :: "body option \<Rightarrow> bool" where
  \<comment> \<open>\<^verbatim>\<open>results\<close> as a condition: \<^verbatim>\<open>null\<close> is false, arrays and objects are true\<close>
  "truthy res = (case res of None \<Rightarrow> False | Some BNull \<Rightarrow> False | Some _ \<Rightarrow> True)"

definition result_rows :: "body option \<Rightarrow> row list option" where
  \<comment> \<open>\<^verbatim>\<open>results.results\<close>, absent on a value that is no execution run\<close>
  "result_rows res = (case res of Some (BResults r) \<Rightarrow> results r | _ \<Rightarrow> None)"

definition matched_stocks :: "row list \<Rightarrow> string list" where
  \<comment> \<open>\<^verbatim>\<open>results.results.filter((r: any) => r.total_matches > 0).map((r: any) => r.symbol)\<close>\<close>
  "matched_stocks rows = map symbol (filter has_matches rows)"

definition toggleStockSelection :: "string \<Rightarrow> string list \<Rightarrow> string list" where
  "toggleStockSelection s prev =
     (if s \<in> set prev then filter (\<lambda>x. x \<noteq> s) prev else prev @ [s])"

definition selectAllMatched :: "component \<Rightarrow> component" where
  \<comment> \<open>without a results array the handler throws and the state stays\<close>
  "selectAllMatched c =
     (if \<not> truthy (c_results c) then c
      else case result_rows (c_results c) of
             None \<Rightarrow> c
           | Some rows \<Rightarrow> c\<lparr>c_selectedStocks := matched_stocks rows\<rparr>)"

definition clearSelection :: "component \<Rightarrow> component" where
  "clearSelection c = c\<lparr>c_selectedStocks := []\<rparr>"

definition handleCreateWatchlistFromResults :: "component \<Rightarrow> component" where
  "handleCreateWatchlistFromResults c =
     (case (if truthy (c_results c) then result_rows (c_results c) else None) of
        None \<Rightarrow> c
      | Some rows \<Rightarrow>
          if c_selectedStocks c = [] then
            (if matched_stocks rows = [] then c
             else c\<lparr>c_selectedStocks := matched_stocks rows, c_createWatchlistModal := True\<rparr>)
          else c\<lparr>c_createWatchlistModal := True\<rparr>)"

definition checkbox_disabled :: "row \<Rightarrow> bool" where
  \<comment> \<open>\<^verbatim>\<open>disabled={record.total_matches === 0}\<close>, which is false on a row without
      \<^verbatim>\<open>total_matches\<close>\<close>
  "checkbox_disabled record \<longleftrightarrow> total_matches record = Some 0"

definition results_shown :: "component \<Rightarrow> bool" where
  \<comment> \<open>\<^verbatim>\<open>{!loading && results && (...)}\<close>: the results, their table and their buttons\<close>
  "results_shown c \<longleftrightarrow> \<not> c_loading c \<and> truthy (c_results c)"

definition shown_rows :: "component \<Rightarrow> row list" where
  \<comment> \<open>\<^verbatim>\<open>dataSource={results.results || []}\<close>\<close>
  "shown_rows c = (case result_rows (c_results c) of None \<Rightarrow> [] | Some rows \<Rightarrow> rows)"

text \<open>
  What the user and the server can do to the component. A handler that awaits the server
  is two steps, its start and its end; the buttons that start one carry
  \<^verbatim>\<open>loading={loading}\<close>, so that none starts while \<^verbatim>\<open>loading\<close> is set. A control that is not
  rendered, or is disabled, cannot be used.
\<close>

inductive step :: "component \<Rightarrow> component \<Rightarrow> bool" where
  execute_start: \<comment> \<open>\<^verbatim>\<open>handleExecute\<close> up to the \<^verbatim>\<open>await\<close>\<close>
    "\<not> c_loading c \<Longrightarrow>
     step c (c\<lparr>c_loading := True, c_results := None, c_selectedStocks := [],
               c_pending := Executing\<rparr>)"
| execute_done: \<comment> \<open>\<^verbatim>\<open>setResults(result)\<close>, then \<^verbatim>\<open>finally\<close>\<close>
    "c_pending c = Executing \<Longrightarrow>
     step c (c\<lparr>c_results := Some result, c_loading := False, c_pending := Idle\<rparr>)"
| execute_failed: \<comment> \<open>\<^verbatim>\<open>catch\<close>, then \<^verbatim>\<open>finally\<close>\<close>
    "c_pending c = Executing \<Longrightarrow> step c (c\<lparr>c_loading := False, c_pending := Idle\<rparr>)"
| checkbox: \<comment> \<open>the checkbox of a row of the table\<close>
    "results_shown c \<Longrightarrow> record \<in> set (shown_rows c) \<Longrightarrow> \<not> checkbox_disabled record \<Longrightarrow>
     step c (c\<lparr>c_selectedStocks := toggleStockSelection (symbol record) (c_selectedStocks c)\<rparr>)"
| card: \<comment> \<open>a card of the matched stocks\<close>
    "results_shown c \<Longrightarrow> r \<in> set (filter has_matches (shown_rows c)) \<Longrightarrow>
     step c (c\<lparr>c_selectedStocks := toggleStockSelection (symbol r) (c_selectedStocks c)\<rparr>)"
| tag: \<comment> \<open>closing the tag of a selected stock in the watchlist modal\<close>
    "c_createWatchlistModal c \<Longrightarrow> s \<in> set (c_selectedStocks c) \<Longrightarrow>
     step c (c\<lparr>c_selectedStocks := toggleStockSelection s (c_selectedStocks c)\<rparr>)"
| select_all: "results_shown c \<Longrightarrow> step c (selectAllMatched c)"
| clear: "results_shown c \<Longrightarrow> step c (clearSelection c)"
| create_from_results: "results_shown c \<Longrightarrow> step c (handleCreateWatchlistFromResults c)"
| cancel_modal: "step c (c\<lparr>c_createWatchlistModal := False\<rparr>)"
| submit_start: \<comment> \<open>\<^verbatim>\<open>handleSubmitWatchlist\<close> up to its first \<^verbatim>\<open>await\<close>\<close>
    "c_createWatchlistModal c \<Longrightarrow> \<not> c_loading c \<Longrightarrow> c_selectedStocks c \<noteq> [] \<Longrightarrow>
     step c (c\<lparr>c_loading := True, c_pending := Submitting\<rparr>)"
| submit_done: \<comment> \<open>the watchlist was created\<close>
    "c_pending c = Submitting \<Longrightarrow>
     step c (c\<lparr>c_createWatchlistModal := False, c_selectedStocks := [], c_loading := False,
               c_pending := Idle\<rparr>)"
| submit_failed: \<comment> \<open>the early return, or \<^verbatim>\<open>catch\<close>; then \<^verbatim>\<open>finally\<close>\<close>
    "c_pending c = Submitting \<Longrightarrow> step c (c\<lparr>c_loading := False, c_pending := Idle\<rparr>)"

inductive reachable :: "component \<Rightarrow> bool" where
  start: "reachable initial"
| next_state: "reachable c \<Longrightarrow> step c c' \<Longrightarrow> reachable c'"

text \<open>The symbols of the current rows whose checkbox can be used.\<close>

definition selectable_symbols :: "component \<Rightarrow> string set" where
  "selectable_symbols c =
     set (map symbol (filter (\<lambda>r. \<not> checkbox_disabled r) (shown_rows c)))"

text \<open>The invariant that the transitions keep.\<close>

definition selection_inv :: "component \<Rightarrow> bool" where
  "selection_inv c \<longleftrightarrow>
     set (c_selectedStocks c) \<subseteq> selectable_symbols c
     \<and> (c_pending c = Executing \<longrightarrow> c_selectedStocks c = [])
     \<and> (c_loading c \<longleftrightarrow> c_pending c \<noteq> Idle)"

section \<open>The Strategy Registry\<close>

text \<open>
  Modelled from the spec: the Strategy Registry and its \<^verbatim>\<open>scan\<close>. The backend behind POST
  /api/strategies/scan is not part of the sources, which only call it (\<^verbatim>\<open>handleScan\<close>).
  The model follows sections 3 and 4.2 of the specification: a strategy describes itself
  through \<^verbatim>\<open>metadata()\<close>; the registry keeps one entry per \<^verbatim>\<open>scriptId\<close>, adds to the
  description where it was found, whether it is active and when it was last scanned; a scan
  loads every candidate of the location, records the ones that fail the contract, adds the
  ones that are new, and updates the ones that are known when their source has changed.
  A location holds one source unit per name, and the \<^verbatim>\<open>scriptId\<close> of a unit is derived from
  its name: the units of a location are an association list with distinct keys, keyed by
  \<^verbatim>\<open>scriptId\<close>. Loading a unit, and its \<^verbatim>\<open>metadata()\<close>, have no effect and always give the
  same result: a unit is its load result.
\<close>

datatype strategy_type = AI_BASED | RULE_BASED

record self_description =
  displayName :: string
  strategy_description :: string
  strategyType :: strategy_type
  timeframe :: string
  indicatorsUsed :: "string list"
  entryExitCriteria :: string
  scoringLogic :: string

record strategy_metadata =
  scriptId :: string
  described :: self_description
  sourceLocation :: string
  isActive :: bool
  lastScanned :: nat

type_synonym registry = "string \<rightharpoonup> strategy_metadata"

type_synonym candidate = "string + self_description"

type_synonym source_units = "(string, candidate) alist"

record scan_report =
  scanned :: nat
  added :: "string list"
  updated :: "string list"
  failed :: "(string \<times> string) list"

definition scan_candidate ::
  "string \<Rightarrow> nat \<Rightarrow> string \<times> candidate \<Rightarrow> scan_report \<times> registry \<Rightarrow> scan_report \<times> registry" where
  "scan_candidate location now c acc =
     (case acc of (report, reg) \<Rightarrow>
        (case c of
           (sid, Inl errorReason) \<Rightarrow>
             (report\<lparr>scanned := scanned report + 1,
                     failed := failed report @ [(sid, errorReason)]\<rparr>, reg)
         | (sid, Inr d) \<Rightarrow>
             (case reg sid of
                None \<Rightarrow>
                  (report\<lparr>scanned := scanned report + 1, added := added report @ [sid]\<rparr>,
                   reg(sid \<mapsto> \<lparr>scriptId = sid, described = d, sourceLocation = location,
                                 isActive = True, lastScanned = now\<rparr>))
              | Some m \<Rightarrow>
                  if described m = d \<and> sourceLocation m = location then
                    (report\<lparr>scanned := scanned report + 1\<rparr>,
                     reg(sid \<mapsto> m\<lparr>lastScanned := now\<rparr>))
                  else
                    (report\<lparr>scanned := scanned report + 1, updated := updated report @ [sid]\<rparr>,
                     reg(sid \<mapsto> m\<lparr>described := d, sourceLocation := location,
                                    lastScanned := now\<rparr>)))))"

definition scan :: "string \<Rightarrow> source_units \<Rightarrow> nat \<Rightarrow> registry \<Rightarrow> scan_report \<times> registry" where
  "scan location units now reg =
     fold (scan_candidate location now) (DAList.impl_of units)
       (\<lparr>scanned = 0, added = [], updated = [], failed = []\<rparr>, reg)"

text \<open>Every unit that loads is registered with the description it gives, at this location.\<close>

definition settled :: "string \<Rightarrow> (string \<times> candidate) list \<Rightarrow> registry \<Rightarrow> bool" where
  "settled location cs reg \<longleftrightarrow>
     list_all (\<lambda>c. case c of
                 (sid, Inl errorReason) \<Rightarrow> True
               | (sid, Inr d) \<Rightarrow>
                   (case reg sid of
                      None \<Rightarrow> False
                    | Some m \<Rightarrow> described m = d \<and> sourceLocation m = location)) cs"

section \<open>The Execution Engine\<close>

text \<open>
  Modelled from the spec: the Execution Engine, its cancellation and its hand-over to the
  Result Store. The backend behind POST /api/strategies/execute-multiple is not part of
  the sources, which only call it (\<^verbatim>\<open>handleExecute\<close>, through
  \<^verbatim>\<open>executeMultipleStrategies\<close>). The model follows sections 4.3 and 5 of the
  specification. One call of \<^verbatim>\<open>execute\<close> has resolved the strategies \<open>found\<close>; it issues one
  task per resolved strategy, in any order and as many at a time as it likes; a task that
  was issued finishes with its outcomes or with a failure marker (an error, a timeout, a
  malformed answer); the caller may cancel the call as long as it has not returned; after
  that no task is issued, and a task in flight finishes or is abandoned; the engine waits
  for the full set, and only a call that was not cancelled assembles the run from what it
  collected, hands it to the Result Store when \<^verbatim>\<open>saveResults\<close> is set, and returns it. The
  merge of the collected outcomes into one record per symbol is a function of the run and
  is not modelled.
\<close>

datatype 'o task_result = Outcomes 'o | FailureMarker

type_synonym 'o run = "(string \<times> 'o task_result) list"

record 'o execution =
  to_issue :: "string list"
  in_flight :: "string list"
  collected :: "'o run"
  issued :: "string list"
  cancelled :: bool
  returned :: bool
  store :: "'o run list"

definition begin_execute :: "string list \<Rightarrow> 'o run list \<Rightarrow> 'o execution" where
  "begin_execute found store0 =
     \<lparr>to_issue = found, in_flight = [], collected = [], issued = [], cancelled = False,
      returned = False, store = store0\<rparr>"

inductive exec_step :: "bool \<Rightarrow> 'o execution \<Rightarrow> 'o execution \<Rightarrow> bool" where
  issue:
    "\<not> cancelled e \<Longrightarrow> \<not> returned e \<Longrightarrow> s \<in> set (to_issue e) \<Longrightarrow>
     exec_step saveResults e
       (e\<lparr>to_issue := remove1 s (to_issue e), in_flight := in_flight e @ [s],
          issued := issued e @ [s]\<rparr>)"
| finish:
    "s \<in> set (in_flight e) \<Longrightarrow>
     exec_step saveResults e
       (e\<lparr>in_flight := remove1 s (in_flight e), collected := collected e @ [(s, r)]\<rparr>)"
| abandon:
    "cancelled e \<Longrightarrow> s \<in> set (in_flight e) \<Longrightarrow>
     exec_step saveResults e (e\<lparr>in_flight := remove1 s (in_flight e)\<rparr>)"
| cancel:
    "\<not> returned e \<Longrightarrow> exec_step saveResults e (e\<lparr>cancelled := True\<rparr>)"
| return_run:
    "\<not> cancelled e \<Longrightarrow> \<not> returned e \<Longrightarrow> to_issue e = [] \<Longrightarrow> in_flight e = [] \<Longrightarrow>
     exec_step saveResults e
       (e\<lparr>returned := True,
          store := (if saveResults then store e @ [collected e] else store e)\<rparr>)"
| return_cancelled:
    "cancelled e \<Longrightarrow> \<not> returned e \<Longrightarrow> in_flight e = [] \<Longrightarrow>
     exec_step saveResults e (e\<lparr>returned := True\<rparr>)"

text \<open>A run is complete when it holds one result for each resolved strategy.\<close>

definition complete_run :: "string list \<Rightarrow> 'o run \<Rightarrow> bool" where
  "complete_run found run \<longleftrightarrow> mset (map fst run) = mset found"

text \<open>
  What every state of a call satisfies: the tasks not issued, in flight and collected are
  tasks of the call, and all of them as long as the call was not cancelled; the tasks issued
  are the ones in flight, collected or abandoned; the store holds what it held before and,
  once the call has returned with a run to save, that run, which is complete.
\<close>

definition exec_inv :: "bool \<Rightarrow> string list \<Rightarrow> 'o run list \<Rightarrow> 'o execution \<Rightarrow> bool" where
  "exec_inv saveResults found store0 e \<longleftrightarrow>
     mset (to_issue e) + mset (in_flight e) + mset (map fst (collected e)) \<subseteq># mset found
     \<and> (\<not> cancelled e \<longrightarrow>
          mset (to_issue e) + mset (in_flight e) + mset (map fst (collected e)) = mset found)
     \<and> mset (to_issue e) + mset (issued e) = mset found
     \<and> (store e = store0
          \<or> (returned e \<and> saveResults \<and> store e = store0 @ [collected e]
               \<and> complete_run found (collected e)))
     \<and> (returned e \<longrightarrow> in_flight e = [])"

section \<open>Properties of the api module\<close>

lemma requests_Cons_Fetch [simp]: "requests (Fetch rq # t) = rq # requests t"
  by (simp add: requests_def)

lemma requests_Nil [simp]: "requests [] = []"
  by (simp add: requests_def)

lemma requests_ReadJson [simp]: "requests (ReadJson # t) = requests t"
  by (simp add: requests_def)

lemma requests_append: "requests (s @ t) = requests s @ requests t"
  by (simp add: requests_def)

text \<open>
  C3. Whatever the server does, each copy of \<^verbatim>\<open>executeMultipleStrategies\<close> issues exactly
  one request: a POST to /api/strategies/execute-multiple whose JSON body has exactly the
  fields \<^verbatim>\<open>watchlist_id\<close>, \<^verbatim>\<open>strategy_ids\<close> and \<^verbatim>\<open>save_results\<close>, carrying the two arguments
  and \<^verbatim>\<open>save_results: true\<close>.
\<close>

theorem executeMultipleStrategies_request:
  "\<exists>rq. requests (events (app_lib_executeMultipleStrategies fetch w watchlistId strategyIds)) = [rq]
    \<and> requests (events (lib_executeMultipleStrategies fetch w watchlistId strategyIds)) = [rq]
    \<and> req_method rq = POST
    \<and> req_url rq = ''http://localhost:8000/api/strategies/execute-multiple''
    \<and> json_fields (req_body rq) = [''watchlist_id'', ''strategy_ids'', ''save_results'']
    \<and> json_field (req_body rq) ''watchlist_id'' = Some (JNum watchlistId)
    \<and> json_field (req_body rq) ''strategy_ids'' = Some (JArr (map JNum strategyIds))
    \<and> json_field (req_body rq) ''save_results'' = Some (JBool True)"
proof -
  let ?rq = "execute_request watchlistId strategyIds"
  have "requests (events (app_lib_executeMultipleStrategies fetch w watchlistId strategyIds)) = [?rq]"
    unfolding app_lib_executeMultipleStrategies_def events_def
    by (cases "fetch w ?rq") (auto split: sum.splits)
  moreover have "requests (events (lib_executeMultipleStrategies fetch w watchlistId strategyIds)) = [?rq]"
    unfolding lib_executeMultipleStrategies_def events_def
    by (cases "fetch w ?rq") (auto split: sum.splits)
  moreover have "req_method ?rq = POST"
    and "req_url ?rq = ''http://localhost:8000/api/strategies/execute-multiple''"
    and "json_fields (req_body ?rq) = [''watchlist_id'', ''strategy_ids'', ''save_results'']"
    and "json_field (req_body ?rq) ''watchlist_id'' = Some (JNum watchlistId)"
    and "json_field (req_body ?rq) ''strategy_ids'' = Some (JArr (map JNum strategyIds))"
    and "json_field (req_body ?rq) ''save_results'' = Some (JBool True)"
    by (simp_all add: execute_request_def API_BASE_URL_def json_fields_def json_field_def)
  ultimately show ?thesis by blast
qed

lemma events_simp [simp]: "events (r, t, w) = t"
  by (simp add: events_def)

lemma delete_call_events: "events (delete_call fetch w u failure) = [Fetch (delete_request u)]"
  by (cases "fetch w (delete_request u)") (auto simp: delete_call_def split: sum.splits)

lemma delete_call_result:
  "fetch w (delete_request u) = (Inr response, w') \<Longrightarrow>
   (isl (fst (delete_call fetch w u failure)) \<longleftrightarrow> \<not> resp_ok response)
   \<and> (resp_ok response \<longrightarrow> fst (delete_call fetch w u failure) = Inr ())"
  by (simp add: delete_call_def)

text \<open>
  C9. Each of \<^verbatim>\<open>deleteStock\<close>, \<^verbatim>\<open>deleteWatchlist\<close> and \<^verbatim>\<open>removeStockFromWatchlist\<close> of
  app/lib/api.ts causes one event only, its DELETE request, so the body of the response is
  never read; and when the request is answered by a response, the call throws if and only
  if the response is not ok, and returns nothing when it is ok.
\<close>

theorem app_lib_delete_calls_throw_iff_not_ok:
  assumes "call = deleteStock fetch w i \<or> call = deleteWatchlist fetch w i
    \<or> call = removeStockFromWatchlist fetch w i j"
  shows "\<exists>rq. events call = [Fetch rq] \<and> req_method rq = DELETE
    \<and> (\<forall>response w'. fetch w rq = (Inr response, w') \<longrightarrow>
          (isl (fst call) \<longleftrightarrow> \<not> resp_ok response)
          \<and> (resp_ok response \<longrightarrow> fst call = Inr ()))"
proof -
  from assms obtain u failure where call: "call = delete_call fetch w u failure"
    unfolding deleteStock_def deleteWatchlist_def removeStockFromWatchlist_def by blast
  have "events call = [Fetch (delete_request u)]"
    by (simp add: call delete_call_events)
  moreover have "req_method (delete_request u) = DELETE"
    by (simp add: delete_request_def)
  moreover have "\<forall>response w'. fetch w (delete_request u) = (Inr response, w') \<longrightarrow>
          (isl (fst call) \<longleftrightarrow> \<not> resp_ok response)
          \<and> (resp_ok response \<longrightarrow> fst call = Inr ())"
    using delete_call_result [of fetch w u] by (simp add: call)
  ultimately show ?thesis by blast
qed

text \<open>A 204 reply, which has no body to parse: the call returns.\<close>

theorem app_lib_delete_calls_witness:
  "fst (deleteStock (always \<lparr>resp_ok = True, resp_json = None\<rparr>) () 7) = Inr ()
   \<and> ReadJson \<notin> set (events (deleteStock (always \<lparr>resp_ok = True, resp_json = None\<rparr>) () 7))"
proof -
  let ?f = "always \<lparr>resp_ok = True, resp_json = None\<rparr>"
  from app_lib_delete_calls_throw_iff_not_ok [of "deleteStock ?f () 7" ?f "()" 7]
  obtain rq where "events (deleteStock ?f () 7) = [Fetch rq]"
    and "\<forall>response w'. ?f () rq = (Inr response, w') \<longrightarrow>
          (isl (fst (deleteStock ?f () 7)) \<longleftrightarrow> \<not> resp_ok response)
          \<and> (resp_ok response \<longrightarrow> fst (deleteStock ?f () 7) = Inr ())"
    by blast
  then show ?thesis by (simp add: always_def)
qed

section \<open>Properties of getSummary\<close>

lemma getSummary_Some:
  "getSummary percent (Some r) =
     Some \<lparr>totalStocks = (case total_stocks r of None \<Rightarrow> 0 | Some n \<Rightarrow> n),
           stocksWithMatches = (case results r of None \<Rightarrow> 0 | Some rows \<Rightarrow> stocks_with_matches rows),
           matchRate =
             (if 0 < (case total_stocks r of None \<Rightarrow> 0 | Some n \<Rightarrow> n)
              then percent (case results r of None \<Rightarrow> 0 | Some rows \<Rightarrow> stocks_with_matches rows)
                     (case total_stocks r of None \<Rightarrow> 0 | Some n \<Rightarrow> n)
              else ''0.0'')\<rparr>"
  by (simp add: getSummary_def Let_def)

text \<open>
  C10. \<^verbatim>\<open>getSummary\<close> never divides by zero: its result is the same for any two ways of
  computing the percentage that agree on every non-zero divisor, so the division is never
  asked for a zero divisor. When \<^verbatim>\<open>total_stocks\<close> is 0 or missing the match rate is the
  string "0.0" (and the total is 0), and when the results array is absent the number of
  stocks with matches is 0.
\<close>

theorem getSummary_never_divides_by_zero:
  "((\<forall>a b. 0 < b \<longrightarrow> percent a b = percent' a b) \<longrightarrow>
      getSummary percent res = getSummary percent' res)
   \<and> (total_stocks r = None \<or> total_stocks r = Some 0 \<longrightarrow>
        (\<exists>s. getSummary percent (Some r) = Some s \<and> matchRate s = ''0.0'' \<and> totalStocks s = 0))
   \<and> (results r = None \<longrightarrow>
        (\<exists>s. getSummary percent (Some r) = Some s \<and> stocksWithMatches s = 0))"
proof (intro conjI impI)
  assume agree: "\<forall>a b. 0 < b \<longrightarrow> percent a b = percent' a b"
  show "getSummary percent res = getSummary percent' res"
  proof (cases res)
    case None
    then show ?thesis by (simp add: getSummary_def)
  next
    case (Some x)
    with agree show ?thesis by (simp add: getSummary_Some)
  qed
next
  assume "total_stocks r = None \<or> total_stocks r = Some 0"
  then show "\<exists>s. getSummary percent (Some r) = Some s \<and> matchRate s = ''0.0'' \<and> totalStocks s = 0"
    by (auto simp: getSummary_Some)
next
  assume "results r = None"
  then show "\<exists>s. getSummary percent (Some r) = Some s \<and> stocksWithMatches s = 0"
    by (simp add: getSummary_Some)
qed

text \<open>
  A run of one matched stock whose \<^verbatim>\<open>total_stocks\<close> is 0, with a percentage that would
  print "Infinity" on a zero divisor: the summary is that of a percentage that never does.
\<close>

theorem getSummary_never_divides_by_zero_witness:
  "getSummary (\<lambda>a b. if b = 0 then ''Infinity'' else ''50.0'')
      (Some \<lparr>strategy_count = Some 1, total_stocks = Some 0,
             results = Some [\<lparr>symbol = ''AAA'', total_matches = Some 1, strategies = None\<rparr>]\<rparr>)
   = Some \<lparr>totalStocks = 0, stocksWithMatches = 1, matchRate = ''0.0''\<rparr>
   \<and> getSummary (\<lambda>a b. ''50.0'')
      (Some \<lparr>strategy_count = Some 1, total_stocks = Some 0,
             results = Some [\<lparr>symbol = ''AAA'', total_matches = Some 1, strategies = None\<rparr>]\<rparr>)
   = Some \<lparr>totalStocks = 0, stocksWithMatches = 1, matchRate = ''0.0''\<rparr>
   \<and> (\<exists>s. getSummary (\<lambda>a b. ''50.0'')
      (Some \<lparr>strategy_count = None, total_stocks = None, results = None\<rparr>) = Some s
        \<and> matchRate s = ''0.0'' \<and> stocksWithMatches s = 0)"
proof -
  let ?p = "\<lambda>(a::nat) (b::nat). if b = 0 then ''Infinity'' else ''50.0''"
  let ?q = "\<lambda>(a::nat) (b::nat). ''50.0''"
  let ?r = "\<lparr>strategy_count = Some 1, total_stocks = Some 0,
             results = Some [\<lparr>symbol = ''AAA'', total_matches = Some 1, strategies = None\<rparr>]\<rparr>"
  let ?e = "\<lparr>strategy_count = None, total_stocks = None, results = None\<rparr>"
  have agree: "\<forall>a b. 0 < b \<longrightarrow> ?p a b = ?q a b" by simp
  have zero: "total_stocks ?r = Some 0" and missing: "total_stocks ?e = None"
    and absent: "results ?e = None" by simp_all
  have "getSummary ?p (Some ?r) = getSummary ?q (Some ?r)"
    using getSummary_never_divides_by_zero [of ?p ?q "Some ?r" ?r] agree by blast
  moreover have "\<exists>s. getSummary ?p (Some ?r) = Some s \<and> matchRate s = ''0.0'' \<and> totalStocks s = 0"
    using getSummary_never_divides_by_zero [of ?p ?q "Some ?r" ?r] zero by blast
  moreover have "\<exists>s. getSummary ?q (Some ?e) = Some s \<and> matchRate s = ''0.0'' \<and> totalStocks s = 0"
    using getSummary_never_divides_by_zero [of ?q ?q "Some ?e" ?e] missing by blast
  moreover have "\<exists>s. getSummary ?q (Some ?e) = Some s \<and> stocksWithMatches s = 0"
    using getSummary_never_divides_by_zero [of ?q ?q "Some ?e" ?e] absent by blast
  moreover have "getSummary ?q (Some ?r)
      = Some \<lparr>totalStocks = 0, stocksWithMatches = 1, matchRate = ''0.0''\<rparr>"
    by (simp add: getSummary_Some stocks_with_matches_def has_matches_def)
  ultimately show ?thesis
    by auto
qed

section \<open>Properties of the strategy columns\<close>

lemma strategy_cell_no_outcome:
  "strategy_result record strategyId = None \<Longrightarrow> strategy_cell strategyId record = NoData"
  by (simp add: strategy_cell_def)

lemma strategy_cell_no_data_marker:
  "strategy_result record strategyId = Some NoDataMarker \<Longrightarrow> strategy_cell strategyId record = NoData"
  by (simp add: strategy_cell_def)

lemma strategy_cell_no_match:
  "strategy_result record strategyId = Some (Outcome r) \<Longrightarrow> \<not> matched r \<Longrightarrow>
   strategy_cell strategyId record = NoMatch"
  by (simp add: strategy_cell_def)

lemma strategy_cell_match:
  "strategy_result record strategyId = Some (Outcome r) \<Longrightarrow> matched r \<Longrightarrow>
   \<exists>c t. strategy_cell strategyId record = Match (score r) c t
     \<and> (confidence r = None \<longrightarrow> c = ConfidenceNothing)
     \<and> (\<forall>x. confidence r = Some x \<and> x \<noteq> 0 \<longrightarrow> c = ConfidenceFixed1 x)"
  by (simp add: strategy_cell_def split: option.splits)

text \<open>
  C4, at the input where the code departs from it: a matched outcome with score 80 and
  confidence 0. The confidence is present, and the cell does not show it to one decimal
  place: the cell holds the bare number 0, which is printed right after the score.
\<close>

theorem strategy_cell_confidence_zero:
  "strategy_cell ''s1''
     \<lparr>symbol = ''AAA'', total_matches = Some 1,
      strategies = Some [''s1'' \<mapsto>
        Outcome \<lparr>matched = True, score = 80, confidence = Some 0, reason = None\<rparr>]\<rparr>
   = Match 80 ConfidenceZero None"
  by (simp add: strategy_cell_def strategy_result_def)

section \<open>Properties of handleUpload\<close>

lemma handleUpload_events:
  "events (handleUpload onRefresh fetch w file) =
     (case handleUpload_try onRefresh fetch w file of
        (None, t, w') \<Rightarrow> [SetUploading True] @ t @ [SetUploading False]
      | (Some error, t, w') \<Rightarrow>
          [SetUploading True] @ t
            @ [AntMsg MsgError (message_or error ''Failed to upload strategy''), SetUploading False])"
  by (simp add: handleUpload_def split: prod.splits option.splits)

lemma handleUpload_rejected:
  "fetch w (upload_request file) = (Inl e, w') \<Longrightarrow>
   events (handleUpload onRefresh fetch w file) =
     [SetUploading True, Fetch (upload_request file),
      AntMsg MsgError (message_or e ''Failed to upload strategy''), SetUploading False]"
  by (simp add: handleUpload_events handleUpload_try_def)

lemma handleUpload_not_ok:
  "fetch w (upload_request file) = (Inr response, w') \<Longrightarrow> \<not> resp_ok response \<Longrightarrow>
   \<exists>m. events (handleUpload onRefresh fetch w file) =
     [SetUploading True, Fetch (upload_request file), ReadJson, AntMsg MsgError m,
      SetUploading False]
     \<and> (\<forall>r d. resp_json response = Some (BObject r) \<and> detail r = Some d \<and> d \<noteq> [] \<longrightarrow> m = Text d)"
  by (auto simp: handleUpload_events handleUpload_try_def read_json_def body_detail_def
      message_or_def or_default_def split: option.splits body.splits)

lemma handleUpload_ok:
  "fetch w (upload_request file) = (Inr response, w') \<Longrightarrow> resp_ok response \<Longrightarrow>
   OnRefresh \<in> set (events (handleUpload onRefresh fetch w file))
     \<longleftrightarrow> onRefresh \<and> resp_json response \<noteq> None \<and> resp_json response \<noteq> Some BNull"
  by (auto simp: handleUpload_events handleUpload_try_def read_json_def body_message_def
      split: option.splits body.splits)

text \<open>
  When the prop is passed, the refresh follows exactly the ok responses whose body parses to
  a value other than \<^verbatim>\<open>null\<close>; when it is not passed, nothing is ever refreshed.
\<close>

lemma handleUpload_refresh_iff:
  "OnRefresh \<in> set (events (handleUpload onRefresh fetch w file)) \<longleftrightarrow>
     onRefresh \<and> (\<exists>response. fst (fetch w (upload_request file)) = Inr response
        \<and> resp_ok response \<and> resp_json response \<noteq> None \<and> resp_json response \<noteq> Some BNull)"
proof (cases "fetch w (upload_request file)")
  case (Pair a w')
  show ?thesis
  proof (cases a)
    case (Inl e)
    with Pair show ?thesis
      by (simp add: handleUpload_rejected)
  next
    case (Inr response)
    show ?thesis
    proof (cases "resp_ok response")
      case True
      with Pair Inr handleUpload_ok [of fetch w "file" response w' onRefresh] show ?thesis
        by simp
    next
      case False
      with Pair Inr handleUpload_not_ok [of fetch w "file" response w' onRefresh] show ?thesis
        by auto
    qed
  qed
qed

text \<open>
  C5, at the input where the code departs from it: the component as app/page.tsx renders
  it, and an upload that the server accepts with an ok response and a message. The success
  message is shown and the modal is closed; then the call of \<^verbatim>\<open>onRefresh\<close>, a prop that was
  not passed, throws, an error message is shown, and the strategy list is not re-read.
\<close>

theorem handleUpload_accepted_not_refreshed:
  "events (handleUpload page_onRefresh
      (always \<lparr>resp_ok = True,
               resp_json = Some (BObject \<lparr>detail = None, message = Some ''Uploaded''\<rparr>)\<rparr>)
      () ''class S: pass'')
   = [SetUploading True, Fetch (upload_request ''class S: pass''), ReadJson,
      AntMsg MsgSuccess (Text ''Uploaded''), SetUploadModal False,
      AntMsg MsgError (EngineText TypeError), SetUploading False]"
  by (simp add: handleUpload_events handleUpload_try_def always_def read_json_def
      body_message_def page_onRefresh_def message_or_def)

section \<open>Properties of ensureStocksExist\<close>

lemma requests_Cons:
  "requests (e # t) = (case e of Fetch rq \<Rightarrow> [rq] | _ \<Rightarrow> []) @ requests t"
  by (simp add: requests_def)

lemma add_missing_events:
  "add_missing fetch w ss = (t, w') \<Longrightarrow> t = map (\<lambda>s. Fetch (add_stock_request s)) ss"
  by (induction ss arbitrary: w t w') (auto split: prod.splits)

lemma requests_map_Fetch: "requests (map (\<lambda>s. Fetch (f s)) ss) = map f ss"
  by (induction ss) simp_all

lemma ensureStocksExist_requests:
  "requests (events (ensureStocksExist fetch w symbols)) =
     get_stocks_request #
       (case fetched_stocks fetch w of
          None \<Rightarrow> []
        | Some stocks \<Rightarrow> map add_stock_request (filter (\<lambda>s. \<not> has_symbol stocks s) symbols))"
proof (cases "fetch w get_stocks_request")
  case (Pair a w1)
  show ?thesis
  proof (cases a)
    case (Inl e)
    with Pair show ?thesis
      by (simp add: ensureStocksExist_def fetched_stocks_def)
  next
    case (Inr response)
    show ?thesis
    proof (cases "resp_ok response \<and> (\<exists>stocks. resp_json response = Some (BStocks stocks))")
      case True
      then obtain stocks where ok: "resp_ok response"
        and stocks: "resp_json response = Some (BStocks stocks)" by blast
      have fetched: "fetched_stocks fetch w = Some stocks"
        using Pair Inr ok stocks by (simp add: fetched_stocks_def)
      show ?thesis
      proof (cases "filter (\<lambda>s. \<not> has_symbol stocks s) symbols = []")
        case True
        with Pair Inr ok stocks fetched show ?thesis
          by (simp add: ensureStocksExist_def read_json_def missing_stocks_def)
      next
        case False
        obtain t w2 where run: "add_missing fetch w1 (filter (\<lambda>s. \<not> has_symbol stocks s) symbols) = (t, w2)"
          by (cases "add_missing fetch w1 (filter (\<lambda>s. \<not> has_symbol stocks s) symbols)")
        have t: "t = map (\<lambda>s. Fetch (add_stock_request s)) (filter (\<lambda>s. \<not> has_symbol stocks s) symbols)"
          using run by (rule add_missing_events)
        from Pair Inr ok stocks fetched False run show ?thesis
          by (simp add: ensureStocksExist_def read_json_def missing_stocks_def requests_append
              requests_Cons t requests_map_Fetch)
      qed
    next
      case False
      then have "fetched_stocks fetch w = None"
        using Pair Inr by (auto simp: fetched_stocks_def split: option.splits body.splits)
      moreover have "requests (events (ensureStocksExist fetch w symbols)) = [get_stocks_request]"
        using Pair Inr False
        by (auto simp: ensureStocksExist_def read_json_def missing_stocks_def requests_Cons
            split: option.splits body.splits)
      ultimately show ?thesis by simp
    qed
  qed
qed

lemma catalog_get:
  "catalog db get_stocks_request = (Inr \<lparr>resp_ok = True, resp_json = Some (BStocks db)\<rparr>, db)"
  by (simp add: catalog_def get_stocks_request_def)

lemma catalog_add:
  "snd (catalog db (add_stock_request s)) =
     (if has_symbol db s then db else db @ [\<lparr>stock_id = next_id db, stock_symbol = s\<rparr>])"
  by (simp add: catalog_def add_stock_request_def json_field_def)

lemma has_symbol_append [simp]:
  "has_symbol (db @ [st]) s \<longleftrightarrow> has_symbol db s \<or> stock_symbol st = s"
  by (auto simp: has_symbol_def list_ex_iff)

lemma add_missing_catalog:
  "has_symbol (snd (add_missing catalog db ss)) s \<longleftrightarrow> has_symbol db s \<or> s \<in> set ss"
proof (induction ss arbitrary: db)
  case Nil
  then show ?case by simp
next
  case (Cons x ss)
  obtain r db1 where step: "catalog db (add_stock_request x) = (r, db1)"
    by (cases "catalog db (add_stock_request x)")
  then have db1: "db1 = (if has_symbol db x then db else db @ [\<lparr>stock_id = next_id db, stock_symbol = x\<rparr>])"
    using catalog_add [of db x] by simp
  have "has_symbol (snd (add_missing catalog db (x # ss))) s
      \<longleftrightarrow> has_symbol (snd (add_missing catalog db1 ss)) s"
    using step by (simp split: prod.splits)
  also have "\<dots> \<longleftrightarrow> has_symbol db1 s \<or> s \<in> set ss"
    by (rule Cons.IH)
  also have "\<dots> \<longleftrightarrow> has_symbol db s \<or> s \<in> set (x # ss)"
    by (auto simp: db1)
  finally show ?case .
qed

lemma ensureStocksExist_catalog_settled:
  assumes "\<forall>s\<in>set symbols. has_symbol db s"
  shows "ensureStocksExist catalog db symbols = (True, [Fetch get_stocks_request, ReadJson], db)"
proof -
  from assms have "filter (\<lambda>s. \<not> has_symbol db s) symbols = []"
    by (simp add: filter_empty_conv)
  then show ?thesis
    by (simp add: ensureStocksExist_def catalog_get read_json_def missing_stocks_def)
qed

lemma ensureStocksExist_catalog_first:
  "fst (ensureStocksExist catalog db symbols)
   \<and> (\<forall>s\<in>set symbols. has_symbol (snd (snd (ensureStocksExist catalog db symbols))) s)"
proof (cases "filter (\<lambda>s. \<not> has_symbol db s) symbols = []")
  case True
  then have "\<forall>s\<in>set symbols. has_symbol db s"
    by (simp add: filter_empty_conv)
  then show ?thesis
    by (simp add: ensureStocksExist_catalog_settled)
next
  case False
  let ?missing = "filter (\<lambda>s. \<not> has_symbol db s) symbols"
  obtain t db1 where run: "add_missing catalog db ?missing = (t, db1)"
    by (cases "add_missing catalog db ?missing")
  have known: "has_symbol db1 s \<longleftrightarrow> has_symbol db s \<or> s \<in> set ?missing" for s
    using add_missing_catalog [of db ?missing s] run by simp
  have "ensureStocksExist catalog db symbols =
      (True, [Fetch get_stocks_request, ReadJson] @ t
         @ [AntMsg MsgSuccess (Text (added_text (length ?missing)))], db1)"
    using False run
    by (simp add: ensureStocksExist_def catalog_get read_json_def missing_stocks_def)
  moreover have "\<forall>s\<in>set symbols. has_symbol db1 s"
    using known by auto
  ultimately show ?thesis by simp
qed

text \<open>
  C2. Whatever the server does, the requests of \<^verbatim>\<open>ensureStocksExist\<close> are the GET of the
  stock list followed by one creating POST for each input symbol that the fetched list does
  not hold, and by none when the list could not be fetched; so when every input symbol is
  in the fetched list, the GET is the only request. Against the catalog store, the first
  call succeeds and leaves every input symbol known, and a second call right after it only
  reads: it makes no POST and leaves the store as it is.
\<close>

theorem ensureStocksExist_idempotent_upsert:
  "requests (events (ensureStocksExist fetch w symbols)) =
     get_stocks_request #
       (case fetched_stocks fetch w of
          None \<Rightarrow> []
        | Some stocks \<Rightarrow> map add_stock_request (filter (\<lambda>s. \<not> has_symbol stocks s) symbols))
   \<and> (\<forall>stocks. fetched_stocks fetch w = Some stocks \<and> (\<forall>s\<in>set symbols. has_symbol stocks s) \<longrightarrow>
         requests (events (ensureStocksExist fetch w symbols)) = [get_stocks_request])
   \<and> (\<forall>db1. db1 = snd (snd (ensureStocksExist catalog db symbols)) \<longrightarrow>
         fst (ensureStocksExist catalog db symbols)
         \<and> (\<forall>s\<in>set symbols. has_symbol db1 s)
         \<and> ensureStocksExist catalog db1 symbols = (True, [Fetch get_stocks_request, ReadJson], db1))"
proof (intro conjI allI impI)
  show "requests (events (ensureStocksExist fetch w symbols)) =
     get_stocks_request #
       (case fetched_stocks fetch w of
          None \<Rightarrow> []
        | Some stocks \<Rightarrow> map add_stock_request (filter (\<lambda>s. \<not> has_symbol stocks s) symbols))"
    by (rule ensureStocksExist_requests)
next
  fix stocks
  assume "fetched_stocks fetch w = Some stocks \<and> (\<forall>s\<in>set symbols. has_symbol stocks s)"
  then show "requests (events (ensureStocksExist fetch w symbols)) = [get_stocks_request]"
    by (simp add: ensureStocksExist_requests filter_empty_conv)
next
  fix db1
  assume db1: "db1 = snd (snd (ensureStocksExist catalog db symbols))"
  show "fst (ensureStocksExist catalog db symbols)"
    using ensureStocksExist_catalog_first [of db symbols] by simp
  show known: "\<forall>s\<in>set symbols. has_symbol db1 s"
    using ensureStocksExist_catalog_first [of db symbols] db1 by simp
  show "ensureStocksExist catalog db1 symbols = (True, [Fetch get_stocks_request, ReadJson], db1)"
    using known by (rule ensureStocksExist_catalog_settled)
qed

text \<open>
  The catalog knows TCS.NS only: the first call creates INFY.NS, the second call, in the
  store the first one left, only reads.
\<close>

theorem ensureStocksExist_idempotent_upsert_witness:
  "requests (events (ensureStocksExist catalog [\<lparr>stock_id = 1, stock_symbol = ''TCS.NS''\<rparr>]
       [''TCS.NS'', ''INFY.NS'']))
     = [get_stocks_request, add_stock_request ''INFY.NS'']
   \<and> requests (events (ensureStocksExist catalog
         (snd (snd (ensureStocksExist catalog [\<lparr>stock_id = 1, stock_symbol = ''TCS.NS''\<rparr>]
            [''TCS.NS'', ''INFY.NS''])))
         [''TCS.NS'', ''INFY.NS'']))
     = [get_stocks_request]"
proof -
  let ?db = "[\<lparr>stock_id = 1, stock_symbol = ''TCS.NS''\<rparr>]"
  let ?symbols = "[''TCS.NS'', ''INFY.NS'']"
  let ?db1 = "snd (snd (ensureStocksExist catalog ?db ?symbols))"
  note upsert = ensureStocksExist_idempotent_upsert [of catalog ?db ?symbols ?db]
  have fetched: "fetched_stocks catalog ?db = Some ?db"
    by (simp add: fetched_stocks_def catalog_get)
  from upsert [THEN conjunct1] fetched
  have first: "requests (events (ensureStocksExist catalog ?db ?symbols))
      = [get_stocks_request, add_stock_request ''INFY.NS'']"
    by (simp add: has_symbol_def)
  from upsert [THEN conjunct2, THEN conjunct2]
  have "ensureStocksExist catalog ?db1 ?symbols = (True, [Fetch get_stocks_request, ReadJson], ?db1)"
    by blast
  then have "requests (events (ensureStocksExist catalog ?db1 ?symbols)) = [get_stocks_request]"
    by simp
  with first show ?thesis by blast
qed

section \<open>Properties of handleSubmitWatchlist\<close>

lemma find_in: "find P xs = Some x \<Longrightarrow> P x \<and> x \<in> set xs"
  by (induction xs) (auto split: if_splits)

lemma map_symbols_notFound:
  "snd (map_symbols stocks sel) = filter (\<lambda>s. \<not> has_symbol stocks s) sel"
  by (induction sel)
    (auto simp: has_symbol_def list_ex_iff find_None_iff split: prod.splits option.splits
      dest: find_in)

lemma map_symbols_ids:
  "s \<in> set sel \<Longrightarrow> has_symbol stocks s \<Longrightarrow>
   \<exists>st\<in>set stocks. stock_symbol st = s \<and> stock_id st \<in> set (fst (map_symbols stocks sel))"
proof (induction sel)
  case Nil
  then show ?case by simp
next
  case (Cons x sel)
  show ?case
  proof (cases "s = x")
    case True
    from Cons.prems(2) obtain st where st: "find (\<lambda>st. stock_symbol st = s) stocks = Some st"
      by (cases "find (\<lambda>st. stock_symbol st = s) stocks")
        (auto simp: has_symbol_def list_ex_iff find_None_iff)
    then have "stock_symbol st = s \<and> st \<in> set stocks" by (rule find_in)
    moreover have "stock_id st \<in> set (fst (map_symbols stocks (x # sel)))"
      using st True by (simp split: prod.splits)
    ultimately show ?thesis by blast
  next
    case False
    with Cons obtain st where "st \<in> set stocks" "stock_symbol st = s"
      "stock_id st \<in> set (fst (map_symbols stocks sel))" by auto
    moreover have "set (fst (map_symbols stocks sel)) \<subseteq> set (fst (map_symbols stocks (x # sel)))"
      by (auto split: prod.splits option.splits)
    ultimately show ?thesis by blast
  qed
qed

lemma map_symbols_some_resolved:
  "fst (map_symbols stocks sel) \<noteq> [] \<Longrightarrow> \<exists>s\<in>set sel. has_symbol stocks s"
  by (induction sel)
    (auto simp: has_symbol_def list_ex_iff split: prod.splits option.splits dest: find_in)

lemma sublist_join: "s \<in> set xs \<Longrightarrow> sublist s (join sep xs)"
proof (induction sep xs rule: join.induct)
  case (1 sep)
  then show ?case by simp
next
  case (2 sep x)
  then show ?case by simp
next
  case (3 sep x y ys)
  show ?case
  proof (cases "s = x")
    case True
    then show ?thesis by simp
  next
    case False
    with 3 have "sublist s (join sep (y # ys))" by simp
    then obtain ps ss where "join sep (y # ys) = ps @ s @ ss"
      by (auto simp: sublist_def)
    then have "join sep (x # y # ys) = (x @ sep @ ps) @ s @ ss" by simp
    then show ?thesis unfolding sublist_def by blast
  qed
qed

lemma warned_not_added:
  assumes "s \<in> set nf" and "AntMsg MsgWarning (Text (not_added_text nf)) \<in> set t"
  shows "warned t s"
proof -
  have "sublist s (join '', '' nf)" using assms(1) by (rule sublist_join)
  then obtain ps ss where "join '', '' nf = ps @ s @ ss" by (auto simp: sublist_def)
  then have "not_added_text nf
      = (string_of_nat (length nf) @ '' stocks could not be added: '' @ ps) @ s @ ss"
    by (simp add: not_added_text_def)
  then have "sublist s (not_added_text nf)" unfolding sublist_def by blast
  with assms(2) show ?thesis
    unfolding warned_def list_ex_iff by force
qed

lemma create_watchlist_requests:
  "requests (events (create_watchlist onRefresh fetch w values ids)) = [create_watchlist_request values ids]"
  by (cases "fetch w (create_watchlist_request values ids)")
    (auto simp: create_watchlist_def read_json_def body_detail_def requests_Cons requests_append
      split: sum.splits option.splits body.splits)

lemma submit_steps_not_fetched:
  assumes "fetched_stocks fetch w1 = None"
  shows "requests (events (submit_steps onRefresh fetch w1 sel values)) = [get_stocks_request]"
    and "\<not> list_ex (\<lambda>e. case e of AntMsg MsgWarning m \<Rightarrow> True | _ \<Rightarrow> False)
           (events (submit_steps onRefresh fetch w1 sel values))"
  using assms
  by (cases "fetch w1 get_stocks_request";
      auto simp: submit_steps_def fetched_stocks_def read_json_def resolve_symbols_def
        requests_Cons split: sum.splits option.splits body.splits if_splits)+

lemma submit_steps_fetched:
  assumes "fetched_stocks fetch w1 = Some stocks"
    and "map_symbols stocks sel = (ids, nf)"
  shows "events (submit_steps onRefresh fetch w1 sel values) =
    [Fetch get_stocks_request, ReadJson]
      @ (if nf \<noteq> [] then [AntMsg MsgWarning (Text (not_added_text nf))] else [])
      @ (if ids = []
         then [AntMsg MsgError (Text ''No valid stocks found. Please try again.''), SetLoading False]
         else events (create_watchlist onRefresh fetch (snd (fetch w1 get_stocks_request)) values ids))"
  using assms
  by (cases "fetch w1 get_stocks_request";
      auto simp: submit_steps_def fetched_stocks_def read_json_def resolve_symbols_def Let_def
        split: sum.splits option.splits body.splits if_splits prod.splits)

lemma handleSubmitWatchlist_events:
  "\<exists>tail. fst (handleSubmitWatchlist onRefresh fetch w sel values) =
     SetLoading True # events (ensureStocksExist fetch w sel)
       @ events (submit_steps onRefresh fetch (snd (snd (ensureStocksExist fetch w sel))) sel values) @ tail
     \<and> requests tail = [] \<and> \<not> warned tail s"
  by (cases "ensureStocksExist fetch w sel";
      cases "submit_steps onRefresh fetch (snd (snd (ensureStocksExist fetch w sel))) sel values")
    (auto simp: handleSubmitWatchlist_def requests_Cons warned_def split: option.splits)

lemma not_create_get [simp]: "\<not> is_create_watchlist get_stocks_request"
  by (simp add: is_create_watchlist_def get_stocks_request_def)

lemma not_create_add [simp]: "\<not> is_create_watchlist (add_stock_request s)"
  by (simp add: is_create_watchlist_def add_stock_request_def)

lemma stock_ids_of_create [simp]:
  "stock_ids_of (create_watchlist_request values ids) = map JNum ids"
  by (simp add: stock_ids_of_def create_watchlist_request_def json_field_def)

lemma ensureStocksExist_no_create:
  "\<forall>rq\<in>set (requests (events (ensureStocksExist fetch w symbols))). \<not> is_create_watchlist rq"
  by (auto simp: ensureStocksExist_requests split: option.splits)

text \<open>
  C1. In every run of \<^verbatim>\<open>handleSubmitWatchlist\<close> the events of \<^verbatim>\<open>ensureStocksExist\<close>, called
  on the selected symbols, come first, and no request that creates a watchlist is among them.
  A creating request is only issued when the stock list was fetched after that and holds at
  least one selected symbol; then every selected symbol either has a stock of that symbol
  whose id is among the \<^verbatim>\<open>stock_ids\<close> of the request, or is contained in the text of a
  warning shown to the user. Whenever the list was fetched, each selected symbol that it
  does not hold is named in a warning; and when it holds none of them, or was not fetched,
  no creating request is issued at all.
\<close>

theorem handleSubmitWatchlist_resolves_or_warns:
  assumes t: "t = fst (handleSubmitWatchlist onRefresh fetch w selectedStocks values)"
    and w1: "w1 = snd (snd (ensureStocksExist fetch w selectedStocks))"
  shows "\<exists>rest. t = SetLoading True # events (ensureStocksExist fetch w selectedStocks) @ rest
     \<and> (\<forall>rq\<in>set (requests (events (ensureStocksExist fetch w selectedStocks))).
           \<not> is_create_watchlist rq)
     \<and> (\<forall>rq\<in>set (requests rest). is_create_watchlist rq \<longrightarrow>
          (\<exists>stocks. fetched_stocks fetch w1 = Some stocks
             \<and> (\<exists>s\<in>set selectedStocks. has_symbol stocks s)
             \<and> (\<forall>s\<in>set selectedStocks.
                  (\<exists>st\<in>set stocks. stock_symbol st = s
                      \<and> JNum (stock_id st) \<in> set (stock_ids_of rq))
                  \<or> warned t s)))
     \<and> (\<forall>stocks. fetched_stocks fetch w1 = Some stocks \<longrightarrow>
          (\<forall>s\<in>set selectedStocks. \<not> has_symbol stocks s \<longrightarrow> warned t s)
          \<and> ((\<forall>s\<in>set selectedStocks. \<not> has_symbol stocks s) \<longrightarrow>
                (\<forall>rq\<in>set (requests t). \<not> is_create_watchlist rq)))
     \<and> (fetched_stocks fetch w1 = None \<longrightarrow> (\<forall>rq\<in>set (requests t). \<not> is_create_watchlist rq))"
proof -
  let ?ensure = "events (ensureStocksExist fetch w selectedStocks)"
  let ?steps = "events (submit_steps onRefresh fetch w1 selectedStocks values)"
  obtain tail where shape: "t = SetLoading True # ?ensure @ ?steps @ tail"
    and tail: "requests tail = []"
    using handleSubmitWatchlist_events [of onRefresh fetch w selectedStocks "values"] t w1 by blast
  let ?rest = "?steps @ tail"
  have ensure: "\<forall>rq\<in>set (requests ?ensure). \<not> is_create_watchlist rq"
    by (rule ensureStocksExist_no_create)
  have reqs_t: "requests t = requests ?ensure @ requests ?steps"
    by (simp add: shape requests_Cons requests_append tail)
  have reqs_rest: "requests ?rest = requests ?steps"
    by (simp add: requests_append tail)
  have none: "\<forall>rq\<in>set (requests ?steps). \<not> is_create_watchlist rq"
    if "fetched_stocks fetch w1 = None"
    using submit_steps_not_fetched(1) [OF that] by simp
  have some: "(\<forall>s\<in>set selectedStocks. \<not> has_symbol stocks s \<longrightarrow> warned t s)
      \<and> ((\<forall>s\<in>set selectedStocks. \<not> has_symbol stocks s) \<longrightarrow>
            (\<forall>rq\<in>set (requests ?steps). \<not> is_create_watchlist rq))
      \<and> (\<forall>rq\<in>set (requests ?steps). is_create_watchlist rq \<longrightarrow>
            (\<exists>s\<in>set selectedStocks. has_symbol stocks s)
            \<and> (\<forall>s\<in>set selectedStocks.
                  (\<exists>st\<in>set stocks. stock_symbol st = s
                      \<and> JNum (stock_id st) \<in> set (stock_ids_of rq))
                  \<or> warned t s))"
    if fetched: "fetched_stocks fetch w1 = Some stocks" for stocks
  proof -
    obtain ids nf where ms: "map_symbols stocks selectedStocks = (ids, nf)"
      by (cases "map_symbols stocks selectedStocks")
    have nf: "nf = filter (\<lambda>s. \<not> has_symbol stocks s) selectedStocks"
      using map_symbols_notFound [of stocks selectedStocks] ms by simp
    have ids: "ids = fst (map_symbols stocks selectedStocks)"
      using ms by simp
    note steps = submit_steps_fetched [OF fetched ms, of onRefresh "values"]
    have warn: "warned t s" if "s \<in> set selectedStocks" "\<not> has_symbol stocks s" for s
    proof -
      from that have "s \<in> set nf" by (simp add: nf)
      moreover from this have "AntMsg MsgWarning (Text (not_added_text nf)) \<in> set t"
        by (auto simp: shape steps)
      ultimately show ?thesis by (rule warned_not_added)
    qed
    have reqs: "requests ?steps =
        get_stocks_request # (if ids = [] then [] else [create_watchlist_request values ids])"
      by (simp add: steps requests_Cons requests_append create_watchlist_requests)
    have unresolved: "ids = []" if "\<forall>s\<in>set selectedStocks. \<not> has_symbol stocks s"
      using map_symbols_some_resolved [of stocks selectedStocks] that ids by blast
    have created: "(\<exists>s\<in>set selectedStocks. has_symbol stocks s)
        \<and> (\<forall>s\<in>set selectedStocks.
              (\<exists>st\<in>set stocks. stock_symbol st = s
                  \<and> JNum (stock_id st) \<in> set (stock_ids_of rq))
              \<or> warned t s)"
      if "rq \<in> set (requests ?steps)" "is_create_watchlist rq" for rq
    proof -
      from that have ne: "ids \<noteq> []" and rq: "rq = create_watchlist_request values ids"
        by (auto simp: reqs split: if_splits)
      have "\<exists>s\<in>set selectedStocks. has_symbol stocks s"
        using map_symbols_some_resolved [of stocks selectedStocks] ne ids by blast
      moreover have "(\<exists>st\<in>set stocks. stock_symbol st = s
                  \<and> JNum (stock_id st) \<in> set (stock_ids_of rq)) \<or> warned t s"
        if s: "s \<in> set selectedStocks" for s
      proof (cases "has_symbol stocks s")
        case True
        with s map_symbols_ids [of s selectedStocks stocks]
        obtain st where "st \<in> set stocks" "stock_symbol st = s" "stock_id st \<in> set ids"
          using ids by blast
        then show ?thesis by (auto simp: rq)
      next
        case False
        with s warn show ?thesis by blast
      qed
      ultimately show ?thesis by blast
    qed
    from warn unresolved created reqs show ?thesis by auto
  qed
  show ?thesis
  proof (intro exI [of _ ?rest] conjI)
    show "t = SetLoading True # ?ensure @ ?rest" by (rule shape)
    show "\<forall>rq\<in>set (requests ?ensure). \<not> is_create_watchlist rq" by (rule ensure)
    show "\<forall>rq\<in>set (requests ?rest). is_create_watchlist rq \<longrightarrow>
          (\<exists>stocks. fetched_stocks fetch w1 = Some stocks
             \<and> (\<exists>s\<in>set selectedStocks. has_symbol stocks s)
             \<and> (\<forall>s\<in>set selectedStocks.
                  (\<exists>st\<in>set stocks. stock_symbol st = s
                      \<and> JNum (stock_id st) \<in> set (stock_ids_of rq))
                  \<or> warned t s))"
    proof (cases "fetched_stocks fetch w1")
      case None
      with none reqs_rest show ?thesis by simp
    next
      case (Some stocks)
      with some [OF Some] reqs_rest show ?thesis by simp
    qed
    show "\<forall>stocks. fetched_stocks fetch w1 = Some stocks \<longrightarrow>
          (\<forall>s\<in>set selectedStocks. \<not> has_symbol stocks s \<longrightarrow> warned t s)
          \<and> ((\<forall>s\<in>set selectedStocks. \<not> has_symbol stocks s) \<longrightarrow>
                (\<forall>rq\<in>set (requests t). \<not> is_create_watchlist rq))"
      using some ensure reqs_t by auto
    show "fetched_stocks fetch w1 = None \<longrightarrow> (\<forall>rq\<in>set (requests t). \<not> is_create_watchlist rq)"
      using none ensure reqs_t by auto
  qed
qed

text \<open>
  A server that lists TCS.NS only, whatever is posted: the watchlist is created with the
  id of TCS.NS, and the warning names INFY.NS.
\<close>

theorem handleSubmitWatchlist_resolves_or_warns_witness:
  "create_watchlist_request \<lparr>name = ''Picks'', description = None\<rparr> [1]
     \<in> set (requests (fst (handleSubmitWatchlist page_onRefresh
          (always \<lparr>resp_ok = True,
                   resp_json = Some (BStocks [\<lparr>stock_id = 1, stock_symbol = ''TCS.NS''\<rparr>])\<rparr>)
          () [''TCS.NS'', ''INFY.NS''] \<lparr>name = ''Picks'', description = None\<rparr>)))
   \<and> warned (fst (handleSubmitWatchlist page_onRefresh
          (always \<lparr>resp_ok = True,
                   resp_json = Some (BStocks [\<lparr>stock_id = 1, stock_symbol = ''TCS.NS''\<rparr>])\<rparr>)
          () [''TCS.NS'', ''INFY.NS''] \<lparr>name = ''Picks'', description = None\<rparr>)) ''INFY.NS''"
proof -
  let ?stocks = "[\<lparr>stock_id = 1, stock_symbol = ''TCS.NS''\<rparr>]"
  let ?f = "always \<lparr>resp_ok = True, resp_json = Some (BStocks ?stocks)\<rparr>"
  let ?sel = "[''TCS.NS'', ''INFY.NS'']"
  let ?v = "\<lparr>name = ''Picks'', description = None\<rparr>"
  let ?t = "fst (handleSubmitWatchlist page_onRefresh ?f () ?sel ?v)"
  have fetched: "fetched_stocks ?f () = Some ?stocks"
    by (simp add: fetched_stocks_def always_def)
  have sel: "''INFY.NS'' \<in> set ?sel" and unknown: "\<not> has_symbol ?stocks ''INFY.NS''"
    by (simp_all add: has_symbol_def)
  from handleSubmitWatchlist_resolves_or_warns [of ?t page_onRefresh ?f "()" ?sel ?v "()"]
  have "\<forall>stocks. fetched_stocks ?f () = Some stocks \<longrightarrow>
          (\<forall>s\<in>set ?sel. \<not> has_symbol stocks s \<longrightarrow> warned ?t s)"
    by auto
  with fetched sel unknown have "warned ?t ''INFY.NS''" by blast
  moreover have "create_watchlist_request ?v [1] \<in> set (requests ?t)"
    by (simp add: handleSubmitWatchlist_def ensureStocksExist_def submit_steps_def
        create_watchlist_def always_def read_json_def missing_stocks_def resolve_symbols_def
        page_onRefresh_def
        has_symbol_def requests_Cons requests_append Let_def)
  ultimately show ?thesis by blast
qed

section \<open>Properties of the selection\<close>

lemma toggleStockSelection_subset:
  "set (toggleStockSelection s prev) \<subseteq> insert s (set prev)"
  by (auto simp: toggleStockSelection_def)

lemma toggleStockSelection_remove:
  "s \<in> set prev \<Longrightarrow> set (toggleStockSelection s prev) \<subseteq> set prev"
  by (auto simp: toggleStockSelection_def)

lemma has_matches_enabled: "has_matches r \<Longrightarrow> \<not> checkbox_disabled r"
  by (auto simp: has_matches_def checkbox_disabled_def)

lemma selectable_symbols_simps [simp]:
  "selectable_symbols (c\<lparr>c_selectedStocks := x\<rparr>) = selectable_symbols c"
  "selectable_symbols (c\<lparr>c_loading := l\<rparr>) = selectable_symbols c"
  "selectable_symbols (c\<lparr>c_pending := p\<rparr>) = selectable_symbols c"
  "selectable_symbols (c\<lparr>c_createWatchlistModal := m\<rparr>) = selectable_symbols c"
  by (simp_all add: selectable_symbols_def shown_rows_def)

lemma selectable_row:
  "r \<in> set (shown_rows c) \<Longrightarrow> \<not> checkbox_disabled r \<Longrightarrow> symbol r \<in> selectable_symbols c"
  by (auto simp: selectable_symbols_def)

lemma matched_stocks_selectable:
  "set (matched_stocks (shown_rows c)) \<subseteq> selectable_symbols c"
  by (auto simp: matched_stocks_def selectable_symbols_def dest: has_matches_enabled)

lemma selection_inv_initial: "selection_inv initial"
  by (simp add: selection_inv_def initial_def)

lemma selection_inv_step:
  assumes "step c c'" and inv: "selection_inv c"
  shows "selection_inv c'"
  using assms(1)
proof cases
  case execute_start
  with inv show ?thesis by (simp add: selection_inv_def)
next
  case (execute_done result)
  with inv show ?thesis by (simp add: selection_inv_def)
next
  case execute_failed
  with inv show ?thesis by (auto simp: selection_inv_def)
next
  case (checkbox rw)
  then have "symbol rw \<in> selectable_symbols c"
    by (auto intro: selectable_row)
  with checkbox inv toggleStockSelection_subset [of "symbol rw" "c_selectedStocks c"]
  show ?thesis
    by (auto simp: selection_inv_def results_shown_def)
next
  case (card r)
  then have "symbol r \<in> selectable_symbols c"
    using has_matches_enabled [of r] by (auto intro: selectable_row)
  with card inv toggleStockSelection_subset [of "symbol r" "c_selectedStocks c"]
  show ?thesis
    by (auto simp: selection_inv_def results_shown_def)
next
  case (tag s)
  with inv toggleStockSelection_remove [of s "c_selectedStocks c"]
  show ?thesis
    by (auto simp: selection_inv_def)
next
  case select_all
  with inv matched_stocks_selectable [of c] show ?thesis
    by (auto simp: selection_inv_def results_shown_def selectAllMatched_def
        selectable_symbols_def shown_rows_def split: option.splits)
next
  case clear
  with inv show ?thesis
    by (auto simp: selection_inv_def results_shown_def clearSelection_def)
next
  case create_from_results
  with inv matched_stocks_selectable [of c] show ?thesis
    by (auto simp: selection_inv_def results_shown_def handleCreateWatchlistFromResults_def
        selectable_symbols_def shown_rows_def split: option.splits if_splits)
next
  case cancel_modal
  with inv show ?thesis by (simp add: selection_inv_def)
next
  case submit_start
  with inv show ?thesis by (auto simp: selection_inv_def)
next
  case submit_done
  with inv show ?thesis by (simp add: selection_inv_def)
next
  case submit_failed
  with inv show ?thesis by (auto simp: selection_inv_def)
qed

lemma reachable_selection_inv: "reachable c \<Longrightarrow> selection_inv c"
  by (induction rule: reachable.induct) (auto intro: selection_inv_initial selection_inv_step)

text \<open>
  What the component does keep: a selected symbol is the symbol of a current row whose
  \<^verbatim>\<open>total_matches\<close> is not the number 0. Where every current row carries a count, this is a
  row with a match.
\<close>

lemma selectedStocks_selectable:
  "reachable c \<Longrightarrow> s \<in> set (c_selectedStocks c) \<Longrightarrow>
   \<exists>r\<in>set (shown_rows c). symbol r = s \<and> total_matches r \<noteq> Some 0"
  using reachable_selection_inv [of c]
  by (auto simp: selection_inv_def selectable_symbols_def checkbox_disabled_def)

lemma selectedStocks_matched_on_counts:
  assumes "reachable c" and "s \<in> set (c_selectedStocks c)"
    and counts: "\<forall>r\<in>set (shown_rows c). \<exists>n\<ge>0. total_matches r = Some n"
  shows "\<exists>r\<in>set (shown_rows c). symbol r = s \<and> has_matches r"
proof -
  from selectedStocks_selectable [OF assms(1,2)]
  obtain r where r: "r \<in> set (shown_rows c)" "symbol r = s" "total_matches r \<noteq> Some 0"
    by blast
  with counts obtain n where "total_matches r = Some n" "0 \<le> n" by blast
  with r have "has_matches r" by (simp add: has_matches_def)
  with r show ?thesis by blast
qed

lemma selectAllMatched_selection:
  "truthy (c_results c) \<Longrightarrow> result_rows (c_results c) = Some rows \<Longrightarrow>
   c_selectedStocks (selectAllMatched c)
     = map symbol (filter (\<lambda>r. case total_matches r of None \<Rightarrow> False | Some n \<Rightarrow> n > 0) rows)"
  by (simp add: selectAllMatched_def matched_stocks_def has_matches_def [abs_def])

lemma handleCreateWatchlistFromResults_selection:
  "truthy (c_results c) \<Longrightarrow> result_rows (c_results c) = Some rows \<Longrightarrow>
   c_selectedStocks c = [] \<Longrightarrow> (\<exists>r\<in>set rows. has_matches r) \<Longrightarrow>
   c_selectedStocks (handleCreateWatchlistFromResults c)
     = map symbol (filter (\<lambda>r. case total_matches r of None \<Rightarrow> False | Some n \<Rightarrow> n > 0) rows)"
  by (auto simp: handleCreateWatchlistFromResults_def matched_stocks_def has_matches_def [abs_def]
      filter_empty_conv)

text \<open>
  C8, at the input where the code departs from it: a run whose row for AAA carries no
  \<^verbatim>\<open>total_matches\<close>. The checkbox of the row is disabled on \<^verbatim>\<open>total_matches === 0\<close> only, so
  it can be used, although the row does not pass \<^verbatim>\<open>total_matches > 0\<close>, the test of the
  matched cards, of \<^verbatim>\<open>selectAllMatched\<close> and of the auto-select path. After the run and a
  click on the checkbox the component is in a state where AAA is selected and no row of AAA
  has a match.
\<close>

theorem selectedStocks_holds_unmatched_row:
  "reachable
     \<lparr>c_results = Some (BResults \<lparr>strategy_count = Some 1, total_stocks = Some 1,
        results = Some [\<lparr>symbol = ''AAA'', total_matches = None, strategies = None\<rparr>]\<rparr>),
      c_selectedStocks = [''AAA''], c_loading = False, c_createWatchlistModal = False,
      c_pending = Idle\<rparr>
   \<and> \<not> list_ex (\<lambda>r. symbol r = ''AAA'' \<and> has_matches r)
         [\<lparr>symbol = ''AAA'', total_matches = None, strategies = None\<rparr>]"
proof -
  let ?aaa = "\<lparr>symbol = ''AAA'', total_matches = None, strategies = None\<rparr>"
  let ?run = "BResults \<lparr>strategy_count = Some 1, total_stocks = Some 1, results = Some [?aaa]\<rparr>"
  let ?c1 = "initial\<lparr>c_loading := True, c_results := None, c_selectedStocks := [],
      c_pending := Executing\<rparr>"
  let ?c2 = "?c1\<lparr>c_results := Some ?run, c_loading := False, c_pending := Idle\<rparr>"
  let ?c3 = "?c2\<lparr>c_selectedStocks := toggleStockSelection (symbol ?aaa) (c_selectedStocks ?c2)\<rparr>"
  let ?c = "\<lparr>c_results = Some ?run, c_selectedStocks = [''AAA''], c_loading = False,
      c_createWatchlistModal = False, c_pending = Idle\<rparr>"
  have "step initial ?c1"
    by (rule step.execute_start) (simp add: initial_def)
  with reachable.start have r1: "reachable ?c1"
    by (rule reachable.next_state)
  have "step ?c1 ?c2"
    by (rule step.execute_done) simp
  with r1 have r2: "reachable ?c2"
    by (rule reachable.next_state)
  have "step ?c2 ?c3"
    by (rule step.checkbox)
      (simp_all add: results_shown_def truthy_def shown_rows_def result_rows_def
        checkbox_disabled_def)
  with r2 have "reachable ?c3"
    by (rule reachable.next_state)
  moreover have "?c3 = ?c"
    by (simp add: initial_def toggleStockSelection_def)
  ultimately have "reachable ?c" by simp
  moreover have "\<not> list_ex (\<lambda>r. symbol r = ''AAA'' \<and> has_matches r) [?aaa]"
    by (simp add: has_matches_def)
  ultimately show ?thesis by blast
qed

section \<open>Properties of handleExecute\<close>

lemma app_lib_executeMultipleStrategies_requests:
  "requests (events (app_lib_executeMultipleStrategies fetch w watchlistId strategyIds))
     = [execute_request watchlistId strategyIds]"
  by (cases "fetch w (execute_request watchlistId strategyIds)")
    (auto simp: app_lib_executeMultipleStrategies_def split: sum.splits)

lemma handleExecuteStrategies_requests:
  "requests (events (handleExecuteStrategies fetch w watchlistId strategyIds))
     = [execute_request watchlistId strategyIds]"
proof -
  obtain r t w' where run: "app_lib_executeMultipleStrategies fetch w watchlistId strategyIds = (r, t, w')"
    by (cases "app_lib_executeMultipleStrategies fetch w watchlistId strategyIds") auto
  then have "requests t = [execute_request watchlistId strategyIds]"
    using app_lib_executeMultipleStrategies_requests [of fetch w watchlistId strategyIds] by simp
  with run show ?thesis
    by (auto simp: handleExecuteStrategies_def requests_append requests_Cons split: sum.splits)
qed

lemma handleExecute_requests:
  "requests (fst (handleExecute fetch w v)) = [execute_request (watchlist_id v) (strategy_ids v)]"
proof -
  obtain r t w' where run:
    "handleExecuteStrategies fetch w (watchlist_id v) (strategy_ids v) = (r, t, w')"
    by (cases "handleExecuteStrategies fetch w (watchlist_id v) (strategy_ids v)") auto
  then have "requests t = [execute_request (watchlist_id v) (strategy_ids v)]"
    using handleExecuteStrategies_requests [of fetch w "watchlist_id v" "strategy_ids v"] by simp
  with run show ?thesis
    by (auto simp: handleExecute_def requests_append requests_Cons split: sum.splits)
qed

section \<open>Properties of the execution engine\<close>

lemma exec_inv_begin: "exec_inv saveResults found store0 (begin_execute found store0)"
  by (simp add: exec_inv_def begin_execute_def)

lemma exec_inv_step:
  assumes "exec_step saveResults e e'" and inv: "exec_inv saveResults found store0 e"
  shows "exec_inv saveResults found store0 e'"
  using assms(1)
proof cases
  case (issue s)
  define T where "T = mset (remove1 s (to_issue e))"
  have a: "mset (to_issue e) = add_mset s T"
    using issue(4) by (simp add: T_def)
  have b: "mset (remove1 s (to_issue e)) = T"
    by (simp only: T_def)
  from inv issue(2,3) show ?thesis
    unfolding exec_inv_def issue(1)
    by (simp del: mset_remove1 add: a b)
next
  case (finish s r)
  define T where "T = mset (remove1 s (in_flight e))"
  have a: "mset (in_flight e) = add_mset s T"
    using finish(2) by (simp add: T_def)
  have b: "mset (remove1 s (in_flight e)) = T"
    by (simp only: T_def)
  have c: "remove1 s (in_flight e) = [] \<longleftrightarrow> T = {#}"
    by (simp del: mset_remove1 add: T_def)
  from inv finish(2) show ?thesis
    unfolding exec_inv_def finish(1)
    by (auto simp del: mset_remove1 simp add: a b)
next
  case (abandon s)
  define T where "T = mset (remove1 s (in_flight e))"
  have a: "mset (in_flight e) = add_mset s T"
    using abandon(3) by (simp add: T_def)
  have b: "mset (remove1 s (in_flight e)) = T"
    by (simp only: T_def)
  have sub: "add_mset s M \<subseteq># Z \<Longrightarrow> M \<subseteq># Z" for M Z :: "string multiset"
    by (meson mset_subset_eq_insertD subset_mset.less_imp_le)
  from inv abandon(2,3) show ?thesis
    unfolding exec_inv_def abandon(1)
    by (auto simp del: mset_remove1 simp add: a b dest: sub)
next
  case cancel
  with inv show ?thesis by (auto simp: exec_inv_def)
next
  case return_run
  with inv show ?thesis by (auto simp: exec_inv_def complete_run_def)
next
  case return_cancelled
  with inv show ?thesis by (auto simp: exec_inv_def)
qed


lemma exec_inv_reachable:
  "(exec_step saveResults)\<^sup>*\<^sup>* (begin_execute found store0) e \<Longrightarrow>
   exec_inv saveResults found store0 e"
  by (induction rule: rtranclp_induct) (auto intro: exec_inv_begin exec_inv_step)

lemma cancelled_step:
  "exec_step saveResults e e' \<Longrightarrow> cancelled e \<Longrightarrow>
   cancelled e' \<and> issued e' = issued e \<and> store e' = store e"
  by (erule exec_step.cases) auto

lemma cancelled_steps:
  "(exec_step saveResults)\<^sup>*\<^sup>* e e' \<Longrightarrow> cancelled e \<Longrightarrow>
   cancelled e' \<and> issued e' = issued e \<and> store e' = store e"
proof (induction rule: rtranclp_induct)
  case base
  then show ?case by simp
next
  case (step y z)
  then have "cancelled y \<and> issued y = issued e \<and> store y = store e" by simp
  with cancelled_step [OF step.hyps(2)] show ?case by simp
qed

text \<open>
  C6. In every state that a call of \<^verbatim>\<open>execute\<close> can reach: as long as the call has not
  returned, the caller can cancel it; once it is cancelled, whatever happens next, it stays
  cancelled, no further task is issued and the Result Store is left as it is; a call
  cancelled before it returned has persisted nothing; and whatever a call persists is one
  run that holds a result for each resolved strategy, never a partial one.
\<close>

theorem execute_cancellation:
  assumes "(exec_step saveResults)\<^sup>*\<^sup>* (begin_execute found store0) e"
  shows "(\<not> returned e \<longrightarrow> exec_step saveResults e (e\<lparr>cancelled := True\<rparr>))
    \<and> (\<forall>e'. cancelled e \<and> (exec_step saveResults)\<^sup>*\<^sup>* e e' \<longrightarrow>
          cancelled e' \<and> issued e' = issued e \<and> store e' = store e)
    \<and> (cancelled e \<and> \<not> returned e \<longrightarrow> store e = store0)
    \<and> (store e = store0 \<or> (\<exists>run. store e = store0 @ [run] \<and> complete_run found run))"
proof (intro conjI impI allI)
  assume "\<not> returned e"
  then show "exec_step saveResults e (e\<lparr>cancelled := True\<rparr>)"
    by (rule exec_step.cancel)
next
  fix e'
  assume c: "cancelled e \<and> (exec_step saveResults)\<^sup>*\<^sup>* e e'"
  then have "cancelled e' \<and> issued e' = issued e \<and> store e' = store e"
    using cancelled_steps [of saveResults e e'] by blast
  then show "cancelled e'" and "issued e' = issued e" and "store e' = store e"
    by simp_all
next
  note inv = exec_inv_reachable [OF assms]
  {
    assume "cancelled e \<and> \<not> returned e"
    with inv show "store e = store0"
      by (auto simp: exec_inv_def)
  }
  from inv show "store e = store0 \<or> (\<exists>run. store e = store0 @ [run] \<and> complete_run found run)"
    by (auto simp: exec_inv_def)
qed

text \<open>
  Two strategies, the first task issued, then the call cancelled: the task in flight
  finishes and the call returns, the second task is never issued and nothing is stored.
\<close>

theorem execute_cancellation_witness:
  "(exec_step True)\<^sup>*\<^sup>* (begin_execute [''s1'', ''s2''] ([] :: nat run list))
      \<lparr>to_issue = [''s2''], in_flight = [''s1''], collected = [], issued = [''s1''],
       cancelled = True, returned = False, store = []\<rparr>
   \<and> (exec_step True)\<^sup>*\<^sup>*
      \<lparr>to_issue = [''s2''], in_flight = [''s1''], collected = [], issued = [''s1''],
       cancelled = True, returned = False, store = ([] :: nat run list)\<rparr>
      \<lparr>to_issue = [''s2''], in_flight = [], collected = [(''s1'', Outcomes 7)],
       issued = [''s1''], cancelled = True, returned = True, store = []\<rparr>
   \<and> issued \<lparr>to_issue = [''s2''], in_flight = [], collected = [(''s1'', Outcomes (7::nat))],
       issued = [''s1''], cancelled = True, returned = True, store = []\<rparr> = [''s1'']
   \<and> store \<lparr>to_issue = [''s2''], in_flight = [], collected = [(''s1'', Outcomes (7::nat))],
       issued = [''s1''], cancelled = True, returned = True, store = []\<rparr> = []"
proof -
  let ?e0 = "begin_execute [''s1'', ''s2''] ([] :: nat run list)"
  let ?e1 = "\<lparr>to_issue = [''s2''], in_flight = [''s1''], collected = [], issued = [''s1''],
       cancelled = False, returned = False, store = ([] :: nat run list)\<rparr>"
  let ?e2 = "\<lparr>to_issue = [''s2''], in_flight = [''s1''], collected = [], issued = [''s1''],
       cancelled = True, returned = False, store = ([] :: nat run list)\<rparr>"
  let ?e3 = "\<lparr>to_issue = [''s2''], in_flight = [], collected = [(''s1'', Outcomes (7::nat))],
       issued = [''s1''], cancelled = True, returned = False, store = ([] :: nat run list)\<rparr>"
  let ?e4 = "\<lparr>to_issue = [''s2''], in_flight = [], collected = [(''s1'', Outcomes (7::nat))],
       issued = [''s1''], cancelled = True, returned = True, store = ([] :: nat run list)\<rparr>"
  have s1: "exec_step True ?e0 ?e1"
    using exec_step.issue [of ?e0 "''s1''" True] by (simp add: begin_execute_def)
  have s2: "exec_step True ?e1 ?e2"
    using exec_step.cancel [of ?e1 True] by simp
  have s3: "exec_step True ?e2 ?e3"
    using exec_step.finish [of "''s1''" ?e2 True "Outcomes 7"] by simp
  have s4: "exec_step True ?e3 ?e4"
    using exec_step.return_cancelled [of ?e3 True] by simp
  from s1 s2 have reach: "(exec_step True)\<^sup>*\<^sup>* ?e0 ?e2" by auto
  from s3 s4 have later: "(exec_step True)\<^sup>*\<^sup>* ?e2 ?e4" by auto
  have c: "cancelled ?e2" by simp
  from execute_cancellation [OF reach] c later
  have "issued ?e4 = issued ?e2 \<and> store ?e4 = store ?e2" by blast
  then have "issued ?e4 = [''s1''] \<and> store ?e4 = []" by simp
  with reach later show ?thesis by blast
qed

section \<open>Properties of the registry\<close>

lemma scan_candidate_other:
  "sid \<noteq> fst c \<Longrightarrow> snd (scan_candidate location now c acc) sid = snd acc sid"
  by (cases acc; cases c)
    (auto simp: scan_candidate_def split: sum.splits option.splits)

lemma fold_scan_other:
  "sid \<notin> fst ` set cs \<Longrightarrow>
   snd (fold (scan_candidate location now) cs acc) sid = snd acc sid"
  by (induction cs arbitrary: acc) (auto simp: scan_candidate_other)

lemma scan_candidate_registers:
  "case snd (scan_candidate location now (sid, Inr d) acc) sid of
     None \<Rightarrow> False
   | Some m \<Rightarrow> described m = d \<and> sourceLocation m = location"
  by (cases acc) (auto simp: scan_candidate_def split: option.splits)

lemma settled_Cons:
  "settled location (c # cs) reg \<longleftrightarrow>
     (case c of
        (sid, Inl errorReason) \<Rightarrow> True
      | (sid, Inr d) \<Rightarrow>
          (case reg sid of
             None \<Rightarrow> False
           | Some m \<Rightarrow> described m = d \<and> sourceLocation m = location))
     \<and> settled location cs reg"
  by (simp add: settled_def)

lemma settled_Nil [simp]: "settled location [] reg"
  by (simp add: settled_def)

lemma first_scan_settles:
  "distinct (map fst cs) \<Longrightarrow>
   settled location cs (snd (fold (scan_candidate location now) cs acc))"
proof (induction cs arbitrary: acc)
  case Nil
  then show ?case by simp
next
  case (Cons c cs)
  obtain sid load where c: "c = (sid, load)" by (cases c)
  from Cons.prems have fresh: "sid \<notin> fst ` set cs" and rest: "distinct (map fst cs)"
    by (auto simp: c)
  let ?acc = "scan_candidate location now c acc"
  have tail: "settled location cs (snd (fold (scan_candidate location now) cs ?acc))"
    using rest by (rule Cons.IH)
  have kept: "snd (fold (scan_candidate location now) cs ?acc) sid = snd ?acc sid"
    using fresh by (rule fold_scan_other)
  have head: "case load of
      Inl errorReason \<Rightarrow> True
    | Inr d \<Rightarrow>
        (case snd (fold (scan_candidate location now) cs ?acc) sid of
           None \<Rightarrow> False
         | Some m \<Rightarrow> described m = d \<and> sourceLocation m = location)"
  proof (cases load)
    case (Inl a)
    then show ?thesis by simp
  next
    case (Inr d)
    with scan_candidate_registers [where location = location and now = now and sid = sid and d = d and acc = acc] kept c show ?thesis
      by simp
  qed
  from head tail show ?case
    unfolding c by (simp add: settled_Cons)
qed

lemma scan_candidate_settled:
  assumes "settled location (c # cs) reg"
  shows "added (fst (scan_candidate location now c (report, reg))) = added report"
    and "updated (fst (scan_candidate location now c (report, reg))) = updated report"
    and "settled location (c # cs) (snd (scan_candidate location now c (report, reg)))"
proof -
  obtain sid load where c: "c = (sid, load)" by (cases c)
  show "added (fst (scan_candidate location now c (report, reg))) = added report"
    and "updated (fst (scan_candidate location now c (report, reg))) = updated report"
    using assms
    by (auto simp: settled_Cons c scan_candidate_def split: sum.splits option.splits)
  show "settled location (c # cs) (snd (scan_candidate location now c (report, reg)))"
  proof (cases load)
    case (Inl a)
    with assms show ?thesis by (simp add: c scan_candidate_def)
  next
    case (Inr d)
    with assms obtain m where m: "reg sid = Some m" "described m = d" "sourceLocation m = location"
      by (auto simp: settled_Cons c split: option.splits)
    then have reg': "snd (scan_candidate location now c (report, reg)) = reg(sid \<mapsto> m\<lparr>lastScanned := now\<rparr>)"
      by (simp add: c Inr scan_candidate_def)
    have "settled location xs (reg(sid \<mapsto> m\<lparr>lastScanned := now\<rparr>))"
      if "settled location xs reg" for xs
      using that m unfolding settled_def list_all_iff
      by (auto split: sum.splits option.splits)
    with assms reg' show ?thesis by simp
  qed
qed

lemma second_scan_reports_nothing:
  "settled location cs (snd acc) \<Longrightarrow>
   added (fst (fold (scan_candidate location now) cs acc)) = added (fst acc)
   \<and> updated (fst (fold (scan_candidate location now) cs acc)) = updated (fst acc)"
proof (induction cs arbitrary: acc)
  case Nil
  then show ?case by simp
next
  case (Cons c cs)
  obtain report reg where acc: "acc = (report, reg)" by (cases acc)
  with Cons.prems have s: "settled location (c # cs) reg" by simp
  let ?acc = "scan_candidate location now c (report, reg)"
  from scan_candidate_settled(3) [OF s, of now report]
  have "settled location cs (snd ?acc)" by (simp add: settled_Cons)
  from Cons.IH [OF this] scan_candidate_settled(1,2) [OF s, of now report]
  show ?case by (simp add: acc)
qed

text \<open>
  C7. For every source location, its units and every registry: a scan followed by a second
  scan of the same location with the same units reports nothing added and nothing updated
  in the second scan.
\<close>

theorem scan_idempotent:
  "added (fst (scan location units later (snd (scan location units now reg)))) = []
   \<and> updated (fst (scan location units later (snd (scan location units now reg)))) = []"
proof -
  have "settled location (DAList.impl_of units) (snd (scan location units now reg))"
    unfolding scan_def by (rule first_scan_settles) simp
  from second_scan_reports_nothing [of location "DAList.impl_of units"
      "(\<lparr>scanned = 0, added = [], updated = [], failed = []\<rparr>, snd (scan location units now reg))" later]
    this
  show ?thesis by (simp add: scan_def)
qed

end
